theory Spec2Isabelle
  imports Main "HOL-Library.Char_ord" "HOL-Library.List_Lexorder" "HOL-Library.Multiset"
begin

section \<open>Personal custom formats: data model\<close>

text \<open>
  The development embeds the two route modules of the API server,
  \<^verbatim>\<open>routes/personal-custom-formats.ts\<close> (create, update, soft delete) and
  \<^verbatim>\<open>routes/personal-custom-formats-deployment.ts\<close> (batch deployment, deployment
  listing, update check, stop tracking).

  Rows of the three tables are records. Several tables have columns called \<open>id\<close>,
  \<open>userId\<close> and \<open>name\<close>; the fields carry a prefix for the table (\<open>cf_\<close>, \<open>dep_\<close>,
  \<open>inst_\<close>, \<open>rcf_\<close>) where the bare name would clash. The row type of the deployment
  table is \<open>DeploymentRow\<close>; \<open>PersonalCFDeployment\<close> is, as in the shared types, the
  shape the listing route returns. Identifiers are strings, as in the
  source. Timestamps are milliseconds as natural numbers. The \<open>version\<close> column is an
  unbounded integer here; the handlers only ever add one to it.

  The \<open>specifications\<close> column holds \<^verbatim>\<open>JSON.stringify\<close> of the validated list and
  every reader applies \<^verbatim>\<open>JSON.parse\<close> to it; the model stores the list itself.
\<close>

datatype ServiceType = RADARR | SONARR

fun serviceTypeName :: "ServiceType \<Rightarrow> string" where
  "serviceTypeName RADARR = ''RADARR''"
| "serviceTypeName SONARR = ''SONARR''"

datatype jvalue =
    JNull
  | JBool bool
  | JNum int
  | JStr string
  | JArr "jvalue list"
  | JObj "(string \<times> jvalue) list"

record CustomFormatSpecification =
  spec_name :: string
  implementation :: string
  negate :: bool
  required :: bool
  spec_fields :: "(string \<times> jvalue) list"

record PersonalCustomFormat =
  cf_id :: string
  cf_userId :: string
  cf_name :: string
  serviceType :: ServiceType
  includeCustomFormatWhenRenaming :: bool
  specifications :: "CustomFormatSpecification list"
  version :: int
  createdAt :: nat
  updatedAt :: nat
  deletedAt :: "nat option"

record DeploymentRow =
  dep_id :: string
  dep_userId :: string
  dep_personalCFId :: string
  dep_instanceId :: string
  dep_instanceCFId :: int
  dep_deployedVersion :: int
  dep_deployedSpecsSnapshot :: "CustomFormatSpecification list"
  dep_deployedAt :: nat

record ServiceInstance =
  inst_id :: string
  inst_userId :: string
  inst_label :: string
  service :: string

record db =
  personalCustomFormat :: "PersonalCustomFormat list"
  personalCFDeployment :: "DeploymentRow list"
  serviceInstance :: "ServiceInstance list"

text \<open>
  A thrown value is either an \<^verbatim>\<open>Error\<close> object with its message or something else;
  the handlers read \<^verbatim>\<open>error instanceof Error ? error.message : fallback\<close>.
\<close>

datatype thrown = Error string | NonError

fun errorMessage :: "thrown \<Rightarrow> string \<Rightarrow> string" where
  "errorMessage (Error m) fallback = m"
| "errorMessage NonError fallback = fallback"

text \<open>
  A reply is the HTTP status with its body: either the \<^verbatim>\<open>{error, message}\<close> shape of
  a failed request or the data of the route.
\<close>

datatype 'a body = ErrorBody string string | Data 'a

type_synonym 'a reply = "nat \<times> 'a body"

definition quoted :: "string \<Rightarrow> string" where
  "quoted s = [CHR 0x22] @ s @ [CHR 0x22]"

section \<open>CRUD routes\<close>

record CreatePersonalCFRequest =
  req_name :: string
  req_serviceType :: ServiceType
  req_includeCustomFormatWhenRenaming :: "bool option"
  req_specifications :: "CustomFormatSpecification list"

record UpdatePersonalCFRequest =
  upd_name :: "string option"
  upd_includeCustomFormatWhenRenaming :: "bool option"
  upd_specifications :: "CustomFormatSpecification list option"

definition createPersonalCFSchema :: "CreatePersonalCFRequest \<Rightarrow> bool" where
  "createPersonalCFSchema b \<longleftrightarrow>
     1 \<le> length (req_name b) \<and> length (req_name b) \<le> 100 \<and>
     1 \<le> length (req_specifications b)"

definition updatePersonalCFSchema :: "UpdatePersonalCFRequest \<Rightarrow> bool" where
  "updatePersonalCFSchema b \<longleftrightarrow>
     (case upd_name b of None \<Rightarrow> True | Some n \<Rightarrow> 1 \<le> length n \<and> length n \<le> 100) \<and>
     (case upd_specifications b of None \<Rightarrow> True | Some sp \<Rightarrow> 1 \<le> length sp)"

text \<open>JavaScript truthiness of an optional array: every array is truthy.\<close>

fun truthy_array :: "'a list option \<Rightarrow> bool" where
  "truthy_array None = False"
| "truthy_array (Some xs) = True"

text \<open>
  \<^verbatim>\<open>findFirst({where: {id, userId, deletedAt: null}})\<close>, the ownership lookup of
  every route, and the duplicate-name lookup
  \<^verbatim>\<open>findFirst({where: {userId, name, serviceType, deletedAt: null}})\<close>.
\<close>

definition findOwnedCF :: "string \<Rightarrow> string \<Rightarrow> db \<Rightarrow> PersonalCustomFormat option" where
  "findOwnedCF i userId d =
     List.find (\<lambda>r. cf_id r = i \<and> cf_userId r = userId \<and> deletedAt r = None)
       (personalCustomFormat d)"

definition findByName :: "string \<Rightarrow> string \<Rightarrow> ServiceType \<Rightarrow> db \<Rightarrow> PersonalCustomFormat option" where
  "findByName userId n st d =
     List.find (\<lambda>r. cf_userId r = userId \<and> cf_name r = n \<and> serviceType r = st \<and> deletedAt r = None)
       (personalCustomFormat d)"

text \<open>
  Modelled from the spec: the storage collaborator's \<^verbatim>\<open>create\<close>. The Prisma schema is
  not part of the sources. The spec has the store enforce a uniqueness invariant on
  (owner, name, service-kind) next to a primary key per row, and the repository's
  implementation notes list the record table with a unique constraint on
  (userId, name, serviceType) and soft delete by \<open>deletedAt\<close>: the constraint is on the
  three columns, whatever \<open>deletedAt\<close> holds. A row whose id or whose triple is
  already in the table is refused, and the storage client throws. The new row's id and
  timestamps come from the storage (here the arguments \<open>newId\<close> and \<open>now\<close>).
\<close>

definition nameKey :: "PersonalCustomFormat \<Rightarrow> string \<times> string \<times> ServiceType" where
  "nameKey r = (cf_userId r, cf_name r, serviceType r)"

definition db_create_cf :: "PersonalCustomFormat \<Rightarrow> db \<Rightarrow> thrown + db" where
  "db_create_cf row d =
     (if cf_id row \<in> set (map cf_id (personalCustomFormat d))
      then Inl (Error ''Unique constraint failed on the fields: (id)'')
      else if nameKey row \<in> set (map nameKey (personalCustomFormat d))
      then Inl (Error ''Unique constraint failed on the fields: (userId,name,serviceType)'')
      else Inr (d\<lparr>personalCustomFormat := personalCustomFormat d @ [row]\<rparr>))"

text \<open>
  \<^verbatim>\<open>update({where: {id}, data})\<close>: the row with that primary key is rewritten. On
  this path only the handler's own duplicate lookup is modelled; the update is taken to
  return.
\<close>

definition db_update_cf :: "string \<Rightarrow> (PersonalCustomFormat \<Rightarrow> PersonalCustomFormat) \<Rightarrow> db \<Rightarrow> db" where
  "db_update_cf i f d =
     d\<lparr>personalCustomFormat :=
          map (\<lambda>r. if cf_id r = i then f r else r) (personalCustomFormat d)\<rparr>"

text \<open>POST /api/personal-custom-formats\<close>

definition post_personalCF ::
  "string \<Rightarrow> CreatePersonalCFRequest \<Rightarrow> string \<Rightarrow> nat \<Rightarrow> db \<Rightarrow> PersonalCustomFormat reply \<times> db" where
  "post_personalCF userId b newId now d =
     (if \<not> createPersonalCFSchema b
      then ((400, ErrorBody ''VALIDATION_ERROR'' ''Invalid request body''), d)
      else
        (case findByName userId (req_name b) (req_serviceType b) d of
           Some existing \<Rightarrow>
             ((409, ErrorBody ''DUPLICATE_NAME''
                 (''A custom format named '' @ quoted (req_name b) @ '' already exists for ''
                    @ serviceTypeName (req_serviceType b))), d)
         | None \<Rightarrow>
             (let cf = \<lparr> cf_id = newId, cf_userId = userId, cf_name = req_name b,
                         serviceType = req_serviceType b,
                         includeCustomFormatWhenRenaming =
                           (case req_includeCustomFormatWhenRenaming b of
                              None \<Rightarrow> False | Some v \<Rightarrow> v),
                         specifications = req_specifications b,
                         version = 1, createdAt = now, updatedAt = now, deletedAt = None \<rparr>
              in case db_create_cf cf d of
                   Inl err \<Rightarrow>
                     ((500, ErrorBody ''CREATE_FAILED''
                         (errorMessage err ''Failed to create custom format'')), d)
                 | Inr d' \<Rightarrow> ((201, Data cf), d'))))"

text \<open>
  PUT /api/personal-custom-formats/:id. The handler reads the row, checks a changed name
  for a duplicate, computes \<open>newVersion\<close> and writes the patch; the reply carries the
  row as written. The \<open>updatedAt\<close> column is set by the storage (spec: the update has
  the side effect of updating \<open>updatedAt\<close>).
\<close>

fun truthyName :: "string option \<Rightarrow> string option" where
  "truthyName None = None"
| "truthyName (Some n) = (if n = [] then None else Some n)"

definition applyPatch :: "UpdatePersonalCFRequest \<Rightarrow> int \<Rightarrow> nat \<Rightarrow> PersonalCustomFormat \<Rightarrow> PersonalCustomFormat" where
  "applyPatch b newVersion now r =
     r\<lparr> cf_name := (case truthyName (upd_name b) of None \<Rightarrow> cf_name r | Some n \<Rightarrow> n),
        includeCustomFormatWhenRenaming :=
          (case upd_includeCustomFormatWhenRenaming b of
             None \<Rightarrow> includeCustomFormatWhenRenaming r | Some v \<Rightarrow> v),
        specifications :=
          (case upd_specifications b of None \<Rightarrow> specifications r | Some sp \<Rightarrow> sp),
        version := newVersion,
        updatedAt := now \<rparr>"

definition duplicateOnRename :: "string \<Rightarrow> UpdatePersonalCFRequest \<Rightarrow> PersonalCustomFormat \<Rightarrow> db \<Rightarrow> string option" where
  "duplicateOnRename userId b cf d =
     (case truthyName (upd_name b) of
        None \<Rightarrow> None
      | Some n \<Rightarrow>
          (if n = cf_name cf then None
           else (case findByName userId n (serviceType cf) d of
                   None \<Rightarrow> None | Some existing \<Rightarrow> Some n)))"

definition put_personalCF ::
  "string \<Rightarrow> string \<Rightarrow> UpdatePersonalCFRequest \<Rightarrow> nat \<Rightarrow> db \<Rightarrow> PersonalCustomFormat reply \<times> db" where
  "put_personalCF userId i b now d =
     (if \<not> updatePersonalCFSchema b
      then ((400, ErrorBody ''VALIDATION_ERROR'' ''Invalid request body''), d)
      else
        (case findOwnedCF i userId d of
           None \<Rightarrow>
             ((404, ErrorBody ''NOT_FOUND'' ''Custom format not found or access denied''), d)
         | Some cf \<Rightarrow>
             (case duplicateOnRename userId b cf d of
                Some n \<Rightarrow>
                  ((409, ErrorBody ''DUPLICATE_NAME''
                      (''A custom format named '' @ quoted n
                         @ '' already exists for '' @ serviceTypeName (serviceType cf))), d)
              | None \<Rightarrow>
                  (let newVersion =
                         (if truthy_array (upd_specifications b) then version cf + 1
                          else version cf)
                   in ((200, Data (applyPatch b newVersion now cf)),
                       db_update_cf i (applyPatch b newVersion now) d)))))"

text \<open>DELETE /api/personal-custom-formats/:id (soft delete)\<close>

definition delete_personalCF ::
  "string \<Rightarrow> string \<Rightarrow> nat \<Rightarrow> db \<Rightarrow> string reply \<times> db" where
  "delete_personalCF userId i now d =
     (case findOwnedCF i userId d of
        None \<Rightarrow>
          ((404, ErrorBody ''NOT_FOUND'' ''Custom format not found or access denied''), d)
      | Some cf \<Rightarrow>
          ((200, Data (''Deleted custom format '' @ quoted (cf_name cf))),
           db_update_cf i (\<lambda>r. r\<lparr>deletedAt := Some now\<rparr>) d))"

section \<open>Deployment routes\<close>

subsection \<open>The remote instance and the environment\<close>

text \<open>
  The client of the remote instance (\<^verbatim>\<open>createArrApiClient\<close>) and
  \<^verbatim>\<open>transformFieldsToArray\<close> live outside the two route modules; they are parameters
  of the model, gathered in an environment. Everything outside the server (the remote
  instance, storage faults, the clock, the id generator) is a state \<open>'w\<close> of arbitrary
  type: each remote call answers from it and moves it on, and may throw.

  A remote custom format has an optional numeric id; a specification sent to the
  instance carries its fields in the array shape the transformer produces.
\<close>

record TransformedSpecification =
  ts_name :: string
  ts_implementation :: string
  ts_negate :: bool
  ts_required :: bool
  ts_fields :: jvalue

record CustomFormat =
  rcf_id :: "int option"
  rcf_name :: string
  rcf_includeCustomFormatWhenRenaming :: bool
  rcf_specifications :: "TransformedSpecification list"

record 'w ArrApiClient =
  getCustomFormats :: "'w \<Rightarrow> (thrown + CustomFormat list) \<times> 'w"
  updateCustomFormat :: "int \<Rightarrow> CustomFormat \<Rightarrow> 'w \<Rightarrow> (thrown + CustomFormat) \<times> 'w"
  createCustomFormat :: "CustomFormat \<Rightarrow> 'w \<Rightarrow> (thrown + CustomFormat) \<times> 'w"

record 'w env =
  createArrApiClient :: "ServiceInstance \<Rightarrow> 'w ArrApiClient"
  transformFieldsToArray :: "(string \<times> jvalue) list \<Rightarrow> jvalue"
  upsertFault :: "'w \<Rightarrow> thrown option \<times> 'w"
  newDate :: "'w \<Rightarrow> nat"
  cuid :: "'w \<Rightarrow> string"

text \<open>
  The calls a handler issues are logged in order, each with what it threw (\<open>None\<close>: it
  returned). The log is not in the source; it is how the theorems speak about which
  calls were made. A call made for an item of a batch carries that item. An upsert is
  logged with the instance id, the remote id it was given and its \<^verbatim>\<open>new Date()\<close>.
\<close>

datatype event =
    ListCall "thrown option"
  | UpdateCall PersonalCustomFormat int CustomFormat "thrown option"
  | CreateCall PersonalCustomFormat CustomFormat "thrown option"
  | UpsertCall PersonalCustomFormat string "int option" nat "thrown option"

record 'w sys =
  world :: 'w
  store :: db
  calls :: "event list"

definition logCall :: "event \<Rightarrow> 'w \<Rightarrow> 'w sys \<Rightarrow> 'w sys" where
  "logCall e w s = s\<lparr>world := w, calls := calls s @ [e]\<rparr>"

subsection \<open>POST /deploy-multiple\<close>

record DeployMultiplePersonalCFsRequest =
  personalCFIds :: "string list"
  instanceId :: string

definition deployMultipleSchema :: "DeployMultiplePersonalCFsRequest \<Rightarrow> bool" where
  "deployMultipleSchema b \<longleftrightarrow> 1 \<le> length (personalCFIds b) \<and> 1 \<le> length (instanceId b)"

record results =
  created :: "string list"
  updated :: "string list"
  failed :: "(string \<times> string) list"

record DeployPersonalCFResponse = results +
  success :: bool

definition findInstance :: "string \<Rightarrow> string \<Rightarrow> db \<Rightarrow> ServiceInstance option" where
  "findInstance i userId d =
     List.find (\<lambda>r. inst_id r = i \<and> inst_userId r = userId) (serviceInstance d)"

definition findManyCFs :: "string list \<Rightarrow> string \<Rightarrow> db \<Rightarrow> PersonalCustomFormat list" where
  "findManyCFs ids userId d =
     filter (\<lambda>r. cf_id r \<in> set ids \<and> cf_userId r = userId \<and> deletedAt r = None)
       (personalCustomFormat d)"

text \<open>\<^verbatim>\<open>new Map(existingFormats.map((cf) => [cf.name, cf]))\<close>: a later entry replaces an
  earlier one of the same name.\<close>

definition existingByName :: "CustomFormat list \<Rightarrow> string \<Rightarrow> CustomFormat option" where
  "existingByName existingFormats = map_of (rev (map (\<lambda>cf. (rcf_name cf, cf)) existingFormats))"

text \<open>\<^verbatim>\<open>existing?.id\<close> is truthy when the name is in the index and the object found has an
  id that is not zero.\<close>

fun existingWithId :: "CustomFormat option \<Rightarrow> (int \<times> CustomFormat) option" where
  "existingWithId None = None"
| "existingWithId (Some e) =
     (case rcf_id e of
        None \<Rightarrow> None
      | Some n \<Rightarrow> (if n = 0 then None else Some (n, e)))"

definition transformSpec :: "'w env \<Rightarrow> CustomFormatSpecification \<Rightarrow> TransformedSpecification" where
  "transformSpec env spec =
     \<lparr> ts_name = spec_name spec, ts_implementation = implementation spec,
       ts_negate = negate spec, ts_required = required spec,
       ts_fields = transformFieldsToArray env (spec_fields spec) \<rparr>"

text \<open>The \<^verbatim>\<open>if (existing?.id) ... else ...\<close> block: the remote call and, when it returns,
  the push onto \<open>updated\<close> or \<open>created\<close>. The result is the thrown value or the id of
  the returned object.\<close>

definition remoteCall ::
  "'w ArrApiClient \<Rightarrow> CustomFormat option \<Rightarrow> PersonalCustomFormat \<Rightarrow> TransformedSpecification list
     \<Rightarrow> results \<times> 'w sys \<Rightarrow> (thrown + int option) \<times> results \<times> 'w sys" where
  "remoteCall arrClient existing personalCF transformedSpecs rs =
     (case rs of (res, s) \<Rightarrow>
       (case existingWithId existing of
          Some (rid, e) \<Rightarrow>
            (let payload = e\<lparr> rcf_name := cf_name personalCF,
                              rcf_includeCustomFormatWhenRenaming :=
                                includeCustomFormatWhenRenaming personalCF,
                              rcf_specifications := transformedSpecs \<rparr>
             in case updateCustomFormat arrClient rid payload (world s) of
                  (Inl err, w) \<Rightarrow>
                    (Inl err, res,
                     logCall (UpdateCall personalCF rid payload (Some err)) w s)
                | (Inr upd, w) \<Rightarrow>
                    (Inr (rcf_id upd), res\<lparr>updated := updated res @ [cf_name personalCF]\<rparr>,
                     logCall (UpdateCall personalCF rid payload None) w s))
        | None \<Rightarrow>
            (let payload = \<lparr> rcf_id = None, rcf_name = cf_name personalCF,
                             rcf_includeCustomFormatWhenRenaming =
                               includeCustomFormatWhenRenaming personalCF,
                             rcf_specifications = transformedSpecs \<rparr>
             in case createCustomFormat arrClient payload (world s) of
                  (Inl err, w) \<Rightarrow>
                    (Inl err, res,
                     logCall (CreateCall personalCF payload (Some err)) w s)
                | (Inr crt, w) \<Rightarrow>
                    (Inr (rcf_id crt), res\<lparr>created := created res @ [cf_name personalCF]\<rparr>,
                     logCall (CreateCall personalCF payload None) w s))))"

text \<open>
  \<^verbatim>\<open>personalCFDeployment.upsert\<close> on the compound key \<^verbatim>\<open>instanceId_personalCFId\<close>: a row
  with the key is overwritten in the four columns of the \<^verbatim>\<open>update\<close> argument, otherwise
  the \<^verbatim>\<open>create\<close> argument is inserted. Modelled from the spec: the Prisma schema is not
  part of the sources; a created row gets its id from the storage and
  \<open>deployedAt = now\<close>, and an id already in the table is refused.
\<close>

definition hasKey :: "string \<Rightarrow> string \<Rightarrow> DeploymentRow \<Rightarrow> bool" where
  "hasKey inst cf r \<longleftrightarrow> dep_instanceId r = inst \<and> dep_personalCFId r = cf"

definition db_upsert_deployment ::
  "string \<Rightarrow> string \<Rightarrow> (DeploymentRow \<Rightarrow> DeploymentRow) \<Rightarrow> DeploymentRow \<Rightarrow> db \<Rightarrow> thrown + db" where
  "db_upsert_deployment inst cf upd crt d =
     (if list_ex (hasKey inst cf) (personalCFDeployment d)
      then Inr (d\<lparr>personalCFDeployment :=
                    map (\<lambda>r. if hasKey inst cf r then upd r else r) (personalCFDeployment d)\<rparr>)
      else if dep_id crt \<in> set (map dep_id (personalCFDeployment d))
      then Inl (Error ''Unique constraint failed on the fields: (id)'')
      else Inr (d\<lparr>personalCFDeployment := personalCFDeployment d @ [crt]\<rparr>))"

text \<open>
  The "Record deployment" step. \<^verbatim>\<open>instanceCFId\<close> is the id of the object the remote
  call returned; the source asserts it present (\<^verbatim>\<open>updated.id!\<close>), and where it is
  missing the storage client rejects the write. Otherwise the storage may still fail
  (\<open>upsertFault\<close>). The timestamp is read once, when the arguments of the call are
  built; a created row's default \<open>deployedAt\<close> is that same instant.
\<close>

definition recordDeployment ::
  "'w env \<Rightarrow> string \<Rightarrow> string \<Rightarrow> PersonalCustomFormat \<Rightarrow> int option \<Rightarrow> 'w sys \<Rightarrow> thrown option \<times> 'w sys" where
  "recordDeployment env userId inst personalCF instanceCFIdOpt s =
     (case instanceCFIdOpt of
        None \<Rightarrow>
          (let err = Error ''Argument instanceCFId is missing''
           in (Some err,
               logCall (UpsertCall personalCF inst None (newDate env (world s)) (Some err))
                 (world s) s))
      | Some n \<Rightarrow>
          (case upsertFault env (world s) of
             (Some err, w) \<Rightarrow>
               (Some err,
                logCall (UpsertCall personalCF inst (Some n) (newDate env (world s)) (Some err)) w s)
           | (None, w) \<Rightarrow>
               (case db_upsert_deployment inst (cf_id personalCF)
                       (\<lambda>r. r\<lparr> dep_instanceCFId := n,
                                dep_deployedVersion := version personalCF,
                                dep_deployedSpecsSnapshot := specifications personalCF,
                                dep_deployedAt := newDate env (world s) \<rparr>)
                       \<lparr> dep_id = cuid env w, dep_userId = userId,
                         dep_personalCFId = cf_id personalCF, dep_instanceId = inst,
                         dep_instanceCFId = n, dep_deployedVersion = version personalCF,
                         dep_deployedSpecsSnapshot = specifications personalCF,
                         dep_deployedAt = newDate env (world s) \<rparr>
                       (store s) of
                  Inl err \<Rightarrow>
                    (Some err,
                     logCall (UpsertCall personalCF inst (Some n) (newDate env (world s)) (Some err)) w s)
                | Inr d' \<Rightarrow>
                    (None,
                     logCall (UpsertCall personalCF inst (Some n) (newDate env (world s)) None)
                       w (s\<lparr>store := d'\<rparr>)))))"

definition pushFailed :: "PersonalCustomFormat \<Rightarrow> thrown \<Rightarrow> results \<Rightarrow> results" where
  "pushFailed personalCF err res =
     res\<lparr>failed := failed res @ [(cf_name personalCF, errorMessage err ''Unknown error'')]\<rparr>"

text \<open>The body of the \<^verbatim>\<open>for\<close> loop with its \<^verbatim>\<open>try\<close>/\<^verbatim>\<open>catch\<close>.\<close>

definition deployOne ::
  "'w env \<Rightarrow> 'w ArrApiClient \<Rightarrow> string \<Rightarrow> string \<Rightarrow> (string \<Rightarrow> CustomFormat option)
     \<Rightarrow> results \<times> 'w sys \<Rightarrow> PersonalCustomFormat \<Rightarrow> results \<times> 'w sys" where
  "deployOne env arrClient userId inst byName rs personalCF =
     (let existing = byName (cf_name personalCF);
          transformedSpecs = map (transformSpec env) (specifications personalCF)
      in case remoteCall arrClient existing personalCF transformedSpecs rs of
           (Inl err, res1, s1) \<Rightarrow> (pushFailed personalCF err res1, s1)
         | (Inr instanceCFIdOpt, res1, s1) \<Rightarrow>
             (case recordDeployment env userId inst personalCF instanceCFIdOpt s1 of
                (Some err, s2) \<Rightarrow> (pushFailed personalCF err res1, s2)
              | (None, s2) \<Rightarrow> (res1, s2)))"

definition deployLoop ::
  "'w env \<Rightarrow> 'w ArrApiClient \<Rightarrow> string \<Rightarrow> string \<Rightarrow> (string \<Rightarrow> CustomFormat option)
     \<Rightarrow> PersonalCustomFormat list \<Rightarrow> results \<times> 'w sys \<Rightarrow> results \<times> 'w sys" where
  "deployLoop env arrClient userId inst byName personalCFs rs =
     foldl (deployOne env arrClient userId inst byName) rs personalCFs"

definition emptyResults :: results where
  "emptyResults = \<lparr> created = [], updated = [], failed = [] \<rparr>"

definition post_deploy_multiple ::
  "'w env \<Rightarrow> string \<Rightarrow> DeployMultiplePersonalCFsRequest \<Rightarrow> 'w sys
     \<Rightarrow> DeployPersonalCFResponse reply \<times> 'w sys" where
  "post_deploy_multiple env userId b s =
     (if \<not> deployMultipleSchema b
      then ((400, ErrorBody ''VALIDATION_ERROR'' ''Invalid request body''), s)
      else
        (case findInstance (instanceId b) userId (store s) of
           None \<Rightarrow> ((404, ErrorBody ''NOT_FOUND'' ''Instance not found''), s)
         | Some instance \<Rightarrow>
             (let personalCFs = findManyCFs (personalCFIds b) userId (store s)
              in if length personalCFs \<noteq> length (personalCFIds b)
                 then ((404, ErrorBody ''SOME_CFS_NOT_FOUND''
                          ''Some custom formats were not found''), s)
                 else
                   (case List.find (\<lambda>cf. serviceTypeName (serviceType cf) \<noteq> service instance)
                           personalCFs of
                      Some mismatch \<Rightarrow>
                        ((400, ErrorBody ''SERVICE_MISMATCH''
                            (''CF '' @ quoted (cf_name mismatch) @ '' is for ''
                               @ serviceTypeName (serviceType mismatch) @ '', instance is ''
                               @ service instance)), s)
                    | None \<Rightarrow>
                        (let arrClient = createArrApiClient env instance
                         in case getCustomFormats arrClient (world s) of
                              (Inl err, w) \<Rightarrow>
                                ((500, ErrorBody ''DEPLOYMENT_FAILED''
                                    (errorMessage err ''Failed to deploy custom formats'')),
                                 logCall (ListCall (Some err)) w s)
                            | (Inr existingFormats, w) \<Rightarrow>
                                (case deployLoop env arrClient userId (instanceId b)
                                        (existingByName existingFormats) personalCFs
                                        (emptyResults, logCall (ListCall None) w s) of
                                   (res, s') \<Rightarrow>
                                     (let ok = (failed res = [])
                                      in ((if ok then 200 else 400,
                                           Data \<lparr> created = created res, updated = updated res,
                                                  failed = failed res, success = ok \<rparr>),
                                          s'))))))))"

subsection \<open>GET /deployments and GET /updates\<close>

text \<open>
  Both routes read the deployment rows of the caller, optionally of one instance, with
  the record and the instance of each row (\<^verbatim>\<open>include\<close>). The relations are required
  ones: a row whose record or instance is absent makes the query fail, which the handler
  answers with status 500. An empty \<open>instanceId\<close> in the query string is falsy and
  filters nothing.
\<close>

record PersonalCFDeployment =
  view_id :: string
  personalCFId :: string
  personalCFName :: string
  view_instanceId :: string
  instanceLabel :: string
  instanceCFId :: int
  deployedVersion :: int
  currentVersion :: int
  needsUpdate :: bool
  deployedAt :: nat

record PersonalCFUpdate =
  deploymentId :: string
  upd_personalCFId :: string
  upd_personalCFName :: string
  upd_instanceId :: string
  upd_instanceLabel :: string
  upd_serviceType :: ServiceType
  upd_deployedVersion :: int
  upd_currentVersion :: int

record PersonalCFUpdatesResponse =
  hasUpdates :: bool
  updates :: "PersonalCFUpdate list"
  totalDeployed :: nat
  outdatedCount :: nat

definition whereDeployment :: "string \<Rightarrow> string option \<Rightarrow> DeploymentRow \<Rightarrow> bool" where
  "whereDeployment userId instanceIdQ r \<longleftrightarrow>
     dep_userId r = userId \<and>
     (case truthyName instanceIdQ of None \<Rightarrow> True | Some i \<Rightarrow> dep_instanceId r = i)"

definition includeRelations ::
  "db \<Rightarrow> DeploymentRow \<Rightarrow> (DeploymentRow \<times> PersonalCustomFormat \<times> ServiceInstance) option" where
  "includeRelations d r =
     (case List.find (\<lambda>cf. cf_id cf = dep_personalCFId r) (personalCustomFormat d) of
        None \<Rightarrow> None
      | Some cf \<Rightarrow>
          (case List.find (\<lambda>i. inst_id i = dep_instanceId r) (serviceInstance d) of
             None \<Rightarrow> None
           | Some i \<Rightarrow> Some (r, cf, i)))"

fun allPresent :: "'a option list \<Rightarrow> 'a list option" where
  "allPresent [] = Some []"
| "allPresent (None # xs) = None"
| "allPresent (Some x # xs) = (case allPresent xs of None \<Rightarrow> None | Some ys \<Rightarrow> Some (x # ys))"

definition findManyDeployments ::
  "string \<Rightarrow> string option \<Rightarrow> db
     \<Rightarrow> (DeploymentRow \<times> PersonalCustomFormat \<times> ServiceInstance) list option" where
  "findManyDeployments userId instanceIdQ d =
     allPresent (map (includeRelations d)
                   (filter (whereDeployment userId instanceIdQ) (personalCFDeployment d)))"

text \<open>\<^verbatim>\<open>orderBy: [{instanceId: "asc"}, {deployedAt: "desc"}]\<close>, as two stable sorts.\<close>

definition orderDeployments ::
  "(DeploymentRow \<times> PersonalCustomFormat \<times> ServiceInstance) list
     \<Rightarrow> (DeploymentRow \<times> PersonalCustomFormat \<times> ServiceInstance) list" where
  "orderDeployments xs =
     sort_key (\<lambda>x. dep_instanceId (fst x))
       (sort_key (\<lambda>x. - int (dep_deployedAt (fst x))) xs)"

fun formatDeployment ::
  "DeploymentRow \<times> PersonalCustomFormat \<times> ServiceInstance \<Rightarrow> PersonalCFDeployment" where
  "formatDeployment (r, cf, i) =
     \<lparr> view_id = dep_id r, personalCFId = dep_personalCFId r, personalCFName = cf_name cf,
       view_instanceId = dep_instanceId r, instanceLabel = inst_label i,
       instanceCFId = dep_instanceCFId r, deployedVersion = dep_deployedVersion r,
       currentVersion = version cf,
       needsUpdate = (version cf > dep_deployedVersion r),
       deployedAt = dep_deployedAt r \<rparr>"

definition get_deployments :: "string \<Rightarrow> string option \<Rightarrow> db \<Rightarrow> PersonalCFDeployment list reply" where
  "get_deployments userId instanceIdQ d =
     (case findManyDeployments userId instanceIdQ d of
        None \<Rightarrow> (500, ErrorBody ''LIST_FAILED'' ''Inconsistent query result'')
      | Some deployments \<Rightarrow> (200, Data (map formatDeployment (orderDeployments deployments))))"

fun driftFilter ::
  "ServiceType option \<Rightarrow> DeploymentRow \<times> PersonalCustomFormat \<times> ServiceInstance \<Rightarrow> bool" where
  "driftFilter serviceTypeQ (r, cf, i) =
     (case serviceTypeQ of
        None \<Rightarrow> version cf > dep_deployedVersion r
      | Some st \<Rightarrow> (if serviceType cf \<noteq> st then False else version cf > dep_deployedVersion r))"

fun formatUpdate ::
  "DeploymentRow \<times> PersonalCustomFormat \<times> ServiceInstance \<Rightarrow> PersonalCFUpdate" where
  "formatUpdate (r, cf, i) =
     \<lparr> deploymentId = dep_id r, upd_personalCFId = dep_personalCFId r,
       upd_personalCFName = cf_name cf, upd_instanceId = dep_instanceId r,
       upd_instanceLabel = inst_label i, upd_serviceType = serviceType cf,
       upd_deployedVersion = dep_deployedVersion r, upd_currentVersion = version cf \<rparr>"

definition get_updates ::
  "string \<Rightarrow> string option \<Rightarrow> ServiceType option \<Rightarrow> db \<Rightarrow> PersonalCFUpdatesResponse reply" where
  "get_updates userId instanceIdQ serviceTypeQ d =
     (case findManyDeployments userId instanceIdQ d of
        None \<Rightarrow> (500, ErrorBody ''CHECK_FAILED'' ''Inconsistent query result'')
      | Some deployments \<Rightarrow>
          (let upds = map formatUpdate (filter (driftFilter serviceTypeQ) deployments)
           in (200, Data \<lparr> hasUpdates = (length upds > 0), updates = upds,
                          totalDeployed = length deployments,
                          outdatedCount = length upds \<rparr>)))"

subsection \<open>DELETE /deployments/:id\<close>

definition delete_deployment :: "string \<Rightarrow> string \<Rightarrow> db \<Rightarrow> string reply \<times> db" where
  "delete_deployment userId i d =
     (case List.find (\<lambda>r. dep_id r = i \<and> dep_userId r = userId) (personalCFDeployment d) of
        None \<Rightarrow> ((404, ErrorBody ''NOT_FOUND'' ''Deployment record not found''), d)
      | Some deployment \<Rightarrow>
          (case List.find (\<lambda>cf. cf_id cf = dep_personalCFId deployment)
                  (personalCustomFormat d) of
             None \<Rightarrow> ((500, ErrorBody ''DELETE_FAILED'' ''Inconsistent query result''), d)
           | Some cf \<Rightarrow>
               ((200, Data (''Stopped tracking deployment of '' @ quoted (cf_name cf))),
                d\<lparr>personalCFDeployment :=
                     filter (\<lambda>r. dep_id r \<noteq> i) (personalCFDeployment d)\<rparr>)))"

subsection \<open>Reading the call log\<close>

text \<open>The calls a handler added to the log, and what each call says about its item.\<close>

definition newCalls :: "'w sys \<Rightarrow> 'w sys \<Rightarrow> event list" where
  "newCalls s s' = drop (length (calls s)) (calls s')"

definition gather :: "(event \<Rightarrow> 'a list) \<Rightarrow> event list \<Rightarrow> 'a list" where
  "gather f tr = concat (map f tr)"

fun listCall :: "event \<Rightarrow> unit list" where
  "listCall (ListCall out) = [()]"
| "listCall e = []"

fun remoteTarget :: "event \<Rightarrow> (PersonalCustomFormat \<times> int option) list" where
  "remoteTarget (UpdateCall it rid payload out) = [(it, Some rid)]"
| "remoteTarget (CreateCall it payload out) = [(it, None)]"
| "remoteTarget e = []"

fun remoteReturned :: "event \<Rightarrow> PersonalCustomFormat list" where
  "remoteReturned (UpdateCall it rid payload None) = [it]"
| "remoteReturned (CreateCall it payload None) = [it]"
| "remoteReturned e = []"

fun remoteThrew :: "event \<Rightarrow> PersonalCustomFormat list" where
  "remoteThrew (UpdateCall it rid payload (Some err)) = [it]"
| "remoteThrew (CreateCall it payload (Some err)) = [it]"
| "remoteThrew e = []"

fun updateReturned :: "event \<Rightarrow> string list" where
  "updateReturned (UpdateCall it rid payload None) = [cf_name it]"
| "updateReturned e = []"

fun createReturned :: "event \<Rightarrow> string list" where
  "createReturned (CreateCall it payload None) = [cf_name it]"
| "createReturned e = []"

fun upsertCall :: "event \<Rightarrow> PersonalCustomFormat list" where
  "upsertCall (UpsertCall it inst rid at out) = [it]"
| "upsertCall e = []"

fun upsertReturned :: "event \<Rightarrow> PersonalCustomFormat list" where
  "upsertReturned (UpsertCall it inst rid at None) = [it]"
| "upsertReturned e = []"

fun failure :: "event \<Rightarrow> (string \<times> string) list" where
  "failure (UpdateCall it rid payload (Some err)) = [(cf_name it, errorMessage err ''Unknown error'')]"
| "failure (CreateCall it payload (Some err)) = [(cf_name it, errorMessage err ''Unknown error'')]"
| "failure (UpsertCall it inst rid at (Some err)) = [(cf_name it, errorMessage err ''Unknown error'')]"
| "failure e = []"

fun upsertWritten :: "event \<Rightarrow> (PersonalCustomFormat \<times> int \<times> nat) list" where
  "upsertWritten (UpsertCall it inst (Some n) at None) = [(it, n, at)]"
| "upsertWritten e = []"

text \<open>How an item of the batch ended: with a thrown call (\<open>False\<close>) or with its
  deployment recorded (\<open>True\<close>).\<close>

fun settled :: "event \<Rightarrow> (PersonalCustomFormat \<times> bool) list" where
  "settled (UpdateCall it rid payload (Some err)) = [(it, False)]"
| "settled (CreateCall it payload (Some err)) = [(it, False)]"
| "settled (UpsertCall it inst rid at (Some err)) = [(it, False)]"
| "settled (UpsertCall it inst rid at None) = [(it, True)]"
| "settled e = []"

subsection \<open>Invariants of the store\<close>

text \<open>The primary key of the record table and the compound key of the deployment
  table.\<close>

definition primaryKeys :: "db \<Rightarrow> bool" where
  "primaryKeys d \<longleftrightarrow> distinct (map cf_id (personalCustomFormat d))"

definition ledgerKey :: "DeploymentRow \<Rightarrow> string \<times> string" where
  "ledgerKey r = (dep_instanceId r, dep_personalCFId r)"

definition ledgerUnique :: "db \<Rightarrow> bool" where
  "ledgerUnique d \<longleftrightarrow> distinct (map ledgerKey (personalCFDeployment d))"

text \<open>The checks of POST /deploy-multiple that come before the first remote call.\<close>

definition guardsPass :: "string \<Rightarrow> DeployMultiplePersonalCFsRequest \<Rightarrow> db \<Rightarrow> ServiceInstance \<Rightarrow> bool" where
  "guardsPass userId b d inst \<longleftrightarrow>
     deployMultipleSchema b \<and>
     findInstance (instanceId b) userId d = Some inst \<and>
     length (findManyCFs (personalCFIds b) userId d) = length (personalCFIds b) \<and>
     List.find (\<lambda>cf. serviceTypeName (serviceType cf) \<noteq> service inst)
       (findManyCFs (personalCFIds b) userId d) = None"


definition foreignKeys :: "db \<Rightarrow> bool" where
  "foreignKeys d \<longleftrightarrow> list_all (\<lambda>r. includeRelations d r \<noteq> None) (personalCFDeployment d)"

section \<open>Sample data\<close>

text \<open>A small store and a scripted remote instance, for running the handlers.\<close>

definition sampleSpec :: CustomFormatSpecification where
  "sampleSpec = \<lparr> spec_name = ''x265'', implementation = ''ReleaseTitleSpecification'',
                  negate = False, required = True,
                  spec_fields = [(''value'', JStr ''x265'')] \<rparr>"

definition sampleCF :: "string \<Rightarrow> string \<Rightarrow> int \<Rightarrow> PersonalCustomFormat" where
  "sampleCF i n v =
     \<lparr> cf_id = i, cf_userId = ''u1'', cf_name = n, serviceType = RADARR,
       includeCustomFormatWhenRenaming = False, specifications = [sampleSpec],
       version = v, createdAt = 1, updatedAt = 1, deletedAt = None \<rparr>"

definition sampleInstance :: ServiceInstance where
  "sampleInstance = \<lparr> inst_id = ''i1'', inst_userId = ''u1'', inst_label = ''Radarr'',
                      service = ''RADARR'' \<rparr>"

definition sonarrInstance :: ServiceInstance where
  "sonarrInstance = \<lparr> inst_id = ''i2'', inst_userId = ''u1'', inst_label = ''Sonarr'',
                      service = ''SONARR'' \<rparr>"

definition sampleDb :: db where
  "sampleDb = \<lparr> personalCustomFormat =
                  [sampleCF ''a'' ''A'' 1, sampleCF ''b'' ''B'' 1, sampleCF ''c'' ''C'' 2],
                personalCFDeployment = [],
                serviceInstance = [sampleInstance, sonarrInstance] \<rparr>"

text \<open>
  The remote instance already has a format named A with id 7 and an entry named C
  without an id. It refuses every payload named B. Ids of created formats count up
  from 100 with the number of calls made so far, which also drives the clock.
\<close>

definition sampleRemote :: "CustomFormat list" where
  "sampleRemote =
     [\<lparr> rcf_id = Some 7, rcf_name = ''A'', rcf_includeCustomFormatWhenRenaming = True,
        rcf_specifications = [] \<rparr>,
      \<lparr> rcf_id = None, rcf_name = ''C'', rcf_includeCustomFormatWhenRenaming = False,
        rcf_specifications = [] \<rparr>]"

definition sampleClient :: "nat ArrApiClient" where
  "sampleClient =
     \<lparr> getCustomFormats = (\<lambda>w. (Inr sampleRemote, Suc w)),
       updateCustomFormat = (\<lambda>rid payload w.
          (if rcf_name payload = ''B'' then Inl (Error ''remote validation failed'')
           else Inr (payload\<lparr>rcf_id := Some rid\<rparr>), Suc w)),
       createCustomFormat = (\<lambda>payload w.
          (if rcf_name payload = ''B'' then Inl (Error ''remote validation failed'')
           else Inr (payload\<lparr>rcf_id := Some (100 + int w)\<rparr>), Suc w)) \<rparr>"

definition sampleEnv :: "nat env" where
  "sampleEnv =
     \<lparr> createArrApiClient = (\<lambda>i. sampleClient),
       transformFieldsToArray =
         (\<lambda>fs. JArr (map (\<lambda>kv. JObj [(''name'', JStr (fst kv)), (''value'', snd kv)]) fs)),
       upsertFault = (\<lambda>w. (None, w)),
       newDate = (\<lambda>w. 1000 + w),
       cuid = (\<lambda>w. replicate (Suc w) (CHR ''d'')) \<rparr>"



definition sampleSys :: "nat sys" where
  "sampleSys = \<lparr> world = 0, store = sampleDb, calls = [] \<rparr>"

definition deployABC :: DeployMultiplePersonalCFsRequest where
  "deployABC = \<lparr> personalCFIds = [''a'', ''b'', ''c''], instanceId = ''i1'' \<rparr>"

text \<open>A store with two tracked deployments; the record of the second is soft-deleted.\<close>

definition sampleRow :: "string \<Rightarrow> string \<Rightarrow> int \<Rightarrow> int \<Rightarrow> nat \<Rightarrow> DeploymentRow" where
  "sampleRow i cf rid v t =
     \<lparr> dep_id = i, dep_userId = ''u1'', dep_personalCFId = cf, dep_instanceId = ''i1'',
       dep_instanceCFId = rid, dep_deployedVersion = v,
       dep_deployedSpecsSnapshot = [sampleSpec], dep_deployedAt = t \<rparr>"

definition tombstoneC :: PersonalCustomFormat where
  "tombstoneC = (sampleCF ''c'' ''C'' 2)\<lparr>deletedAt := Some 9\<rparr>"

definition trackedDb :: db where
  "trackedDb = \<lparr> personalCustomFormat = [sampleCF ''a'' ''A'' 1, tombstoneC],
                 personalCFDeployment =
                   [sampleRow ''d1'' ''a'' 7 1 100, sampleRow ''d2'' ''c'' 8 1 90],
                 serviceInstance = [sampleInstance, sonarrInstance] \<rparr>"

definition samePatch :: UpdatePersonalCFRequest where
  "samePatch = \<lparr> upd_name = None, upd_includeCustomFormatWhenRenaming = None,
                 upd_specifications = Some [sampleSpec] \<rparr>"

definition deployToSonarr :: DeployMultiplePersonalCFsRequest where
  "deployToSonarr = \<lparr> personalCFIds = [''a''], instanceId = ''i2'' \<rparr>"

definition deployTwice :: DeployMultiplePersonalCFsRequest where
  "deployTwice = \<lparr> personalCFIds = [''a'', ''a''], instanceId = ''i1'' \<rparr>"

definition createA :: CreatePersonalCFRequest where
  "createA = \<lparr> req_name = ''A'', req_serviceType = RADARR,
               req_includeCustomFormatWhenRenaming = None,
               req_specifications = [sampleSpec] \<rparr>"

text \<open>The sample store after deploying A, B and C and then resubmitting A's
  specifications.\<close>

definition driftDb :: db where
  "driftDb = snd (put_personalCF ''u1'' ''a'' samePatch 5
                    (store (snd (post_deploy_multiple sampleEnv ''u1'' deployABC sampleSys))))"

definition driftViews :: "PersonalCFDeployment list" where
  "driftViews =
     [\<lparr> view_id = ''ddddd'', personalCFId = ''c'', personalCFName = ''C'',
        view_instanceId = ''i1'', instanceLabel = ''Radarr'', instanceCFId = 103,
        deployedVersion = 2, currentVersion = 2, needsUpdate = False, deployedAt = 1004 \<rparr>,
      \<lparr> view_id = ''ddd'', personalCFId = ''a'', personalCFName = ''A'',
        view_instanceId = ''i1'', instanceLabel = ''Radarr'', instanceCFId = 7,
        deployedVersion = 1, currentVersion = 2, needsUpdate = True, deployedAt = 1002 \<rparr>]"

text \<open>A second deployment of A, after its version moved to 2.\<close>

definition deployA :: DeployMultiplePersonalCFsRequest where
  "deployA = \<lparr> personalCFIds = [''a''], instanceId = ''i1'' \<rparr>"

definition redeploySys :: "nat sys" where
  "redeploySys = \<lparr> world = 5, store = driftDb, calls = [] \<rparr>"

section \<open>Versioning of updates\<close>

lemma findOwnedCF_update:
  assumes "\<And>r. cf_id (f r) = cf_id r" "\<And>r. cf_userId (f r) = cf_userId r"
    and "\<And>r. deletedAt (f r) = deletedAt r"
  shows "findOwnedCF i userId (db_update_cf i f d) = map_option f (findOwnedCF i userId d)"
proof -
  have "List.find (\<lambda>r. cf_id r = i \<and> cf_userId r = userId \<and> deletedAt r = None)
          (map (\<lambda>r. if cf_id r = i then f r else r) xs)
        = map_option f
            (List.find (\<lambda>r. cf_id r = i \<and> cf_userId r = userId \<and> deletedAt r = None) xs)" for xs
    by (induction xs) (auto simp: assms)
  then show ?thesis by (simp add: findOwnedCF_def db_update_cf_def)
qed

text \<open>
  C1. Whenever PUT /:id answers 200, the caller's row existed before, the row stored
  afterwards is the one in the reply, and its version is the old version plus one
  exactly when the patch carries \<open>specifications\<close> (whatever their content), and the
  old version exactly when it does not (whatever happens to \<open>name\<close> and the rename
  flag).
\<close>

theorem put_version_bump:
  assumes "put_personalCF userId i b now d = ((200, Data cf'), d')"
  shows "\<exists>cf. findOwnedCF i userId d = Some cf \<and> findOwnedCF i userId d' = Some cf' \<and>
           (version cf' = version cf + 1 \<longleftrightarrow> upd_specifications b \<noteq> None) \<and>
           (version cf' = version cf \<longleftrightarrow> upd_specifications b = None)"
proof -
  let ?v = "\<lambda>cf. if truthy_array (upd_specifications b) then version cf + 1 else version cf"
  from assms obtain cf where cf: "findOwnedCF i userId d = Some cf"
    and out: "cf' = applyPatch b (?v cf) now cf" "d' = db_update_cf i (applyPatch b (?v cf) now) d"
    by (auto simp: put_personalCF_def Let_def split: if_splits option.splits)
  have "findOwnedCF i userId d' = Some cf'"
    unfolding out by (subst findOwnedCF_update) (simp_all add: applyPatch_def cf)
  moreover have "version cf' = (if upd_specifications b = None then version cf else version cf + 1)"
    unfolding out by (cases "upd_specifications b") (simp_all add: applyPatch_def)
  ultimately show ?thesis using cf by auto
qed

text \<open>Resubmitting the stored specifications unchanged still moves version 1 to 2.\<close>

theorem put_version_bump_witness:
  "upd_specifications samePatch = Some (specifications (sampleCF ''a'' ''A'' 1)) \<and>
   put_personalCF ''u1'' ''a'' samePatch 5 sampleDb =
     ((200, Data (applyPatch samePatch 2 5 (sampleCF ''a'' ''A'' 1))),
      db_update_cf ''a'' (applyPatch samePatch 2 5) sampleDb) \<and>
   map_option version (findOwnedCF ''a'' ''u1'' sampleDb) = Some 1 \<and>
   map_option version
     (findOwnedCF ''a'' ''u1'' (db_update_cf ''a'' (applyPatch samePatch 2 5) sampleDb)) = Some 2"
proof -
  have run: "put_personalCF ''u1'' ''a'' samePatch 5 sampleDb =
     ((200, Data (applyPatch samePatch 2 5 (sampleCF ''a'' ''A'' 1))),
      db_update_cf ''a'' (applyPatch samePatch 2 5) sampleDb)"
    by (simp add: put_personalCF_def updatePersonalCFSchema_def findOwnedCF_def
        duplicateOnRename_def samePatch_def sampleDb_def sampleCF_def)
  from put_version_bump [OF run] obtain cf where
    "findOwnedCF ''a'' ''u1'' sampleDb = Some cf"
    "findOwnedCF ''a'' ''u1'' (db_update_cf ''a'' (applyPatch samePatch 2 5) sampleDb)
       = Some (applyPatch samePatch 2 5 (sampleCF ''a'' ''A'' 1))"
    by blast
  moreover have "findOwnedCF ''a'' ''u1'' sampleDb = Some (sampleCF ''a'' ''A'' 1)"
    by (simp add: findOwnedCF_def sampleDb_def sampleCF_def)
  moreover have "version (applyPatch samePatch 2 5 (sampleCF ''a'' ''A'' 1)) = 2"
    by (simp add: applyPatch_def)
  moreover have "upd_specifications samePatch = Some (specifications (sampleCF ''a'' ''A'' 1))"
    by (simp add: samePatch_def sampleCF_def)
  moreover have "version (sampleCF ''a'' ''A'' 1) = 1"
    by (simp add: sampleCF_def)
  ultimately show ?thesis using run by simp
qed

section \<open>Guards of the batch deployment\<close>

text \<open>
  C4. When the instance is not found for the caller, or fewer records are fetched than
  ids were requested, or a fetched record's service type differs from the instance's,
  POST /deploy-multiple answers with a single top-level error and hands back the system
  exactly as it was: no call was logged, the remote state did not move and the store
  (hence the deployment table) is unchanged.
\<close>

theorem deploy_guards_abort:
  assumes "findInstance (instanceId b) userId (store s) = None \<or>
           length (findManyCFs (personalCFIds b) userId (store s)) < length (personalCFIds b) \<or>
           (\<exists>inst cf. findInstance (instanceId b) userId (store s) = Some inst \<and>
                      cf \<in> set (findManyCFs (personalCFIds b) userId (store s)) \<and>
                      serviceTypeName (serviceType cf) \<noteq> service inst)"
  shows "\<exists>st code msg. post_deploy_multiple env userId b s = ((st, ErrorBody code msg), s) \<and>
           (st, code) \<in> {(400, ''VALIDATION_ERROR''), (404, ''NOT_FOUND''),
                          (404, ''SOME_CFS_NOT_FOUND''), (400, ''SERVICE_MISMATCH'')}"
proof (cases "deployMultipleSchema b")
  case False
  then show ?thesis by (simp add: post_deploy_multiple_def)
next
  case schema: True
  show ?thesis
  proof (cases "findInstance (instanceId b) userId (store s)")
    case None
    with schema show ?thesis by (simp add: post_deploy_multiple_def)
  next
    case (Some inst)
    show ?thesis
    proof (cases "length (findManyCFs (personalCFIds b) userId (store s)) = length (personalCFIds b)")
      case False
      with schema Some show ?thesis by (simp add: post_deploy_multiple_def Let_def)
    next
      case True
      with assms Some obtain cf where
        "cf \<in> set (findManyCFs (personalCFIds b) userId (store s))"
        "serviceTypeName (serviceType cf) \<noteq> service inst"
        by auto
      then obtain m where "List.find (\<lambda>cf. serviceTypeName (serviceType cf) \<noteq> service inst)
              (findManyCFs (personalCFIds b) userId (store s)) = Some m"
        by (cases "List.find (\<lambda>cf. serviceTypeName (serviceType cf) \<noteq> service inst)
              (findManyCFs (personalCFIds b) userId (store s))") (auto simp: find_None_iff)
      with schema Some True show ?thesis by (simp add: post_deploy_multiple_def Let_def)
    qed
  qed
qed

text \<open>A RADARR record sent to the SONARR instance: SERVICE_MISMATCH, nothing touched.\<close>

theorem deploy_guards_abort_witness:
  "findInstance (instanceId deployToSonarr) ''u1'' (store sampleSys) = Some sonarrInstance \<and>
   sampleCF ''a'' ''A'' 1 \<in> set (findManyCFs (personalCFIds deployToSonarr) ''u1'' (store sampleSys)) \<and>
   serviceTypeName (serviceType (sampleCF ''a'' ''A'' 1)) \<noteq> service sonarrInstance \<and>
   (\<exists>st code msg.
      post_deploy_multiple sampleEnv ''u1'' deployToSonarr sampleSys
        = ((st, ErrorBody code msg), sampleSys) \<and>
      (st, code) \<in> {(400, ''VALIDATION_ERROR''), (404, ''NOT_FOUND''),
                     (404, ''SOME_CFS_NOT_FOUND''), (400, ''SERVICE_MISMATCH'')})"
proof -
  have h: "findInstance (instanceId deployToSonarr) ''u1'' (store sampleSys) = Some sonarrInstance \<and>
      sampleCF ''a'' ''A'' 1 \<in> set (findManyCFs (personalCFIds deployToSonarr) ''u1'' (store sampleSys)) \<and>
      serviceTypeName (serviceType (sampleCF ''a'' ''A'' 1)) \<noteq> service sonarrInstance"
    by (simp add: findInstance_def findManyCFs_def deployToSonarr_def sampleSys_def sampleDb_def
        sampleInstance_def sonarrInstance_def sampleCF_def)
  then have "findInstance (instanceId deployToSonarr) ''u1'' (store sampleSys) = None \<or>
      length (findManyCFs (personalCFIds deployToSonarr) ''u1'' (store sampleSys))
        < length (personalCFIds deployToSonarr) \<or>
      (\<exists>inst cf. findInstance (instanceId deployToSonarr) ''u1'' (store sampleSys) = Some inst \<and>
          cf \<in> set (findManyCFs (personalCFIds deployToSonarr) ''u1'' (store sampleSys)) \<and>
          serviceTypeName (serviceType cf) \<noteq> service inst)"
    by blast
  from deploy_guards_abort [OF this, of sampleEnv] h show ?thesis by blast
qed

lemma length_findManyCFs:
  assumes "distinct (map cf_id (personalCustomFormat d))"
  shows "length (findManyCFs ids userId d) \<le> card (set ids)"
proof -
  let ?xs = "findManyCFs ids userId d"
  have "distinct (map cf_id ?xs)"
    using assms by (simp add: findManyCFs_def distinct_map_filter)
  then have "length ?xs = card (set (map cf_id ?xs))"
    by (metis distinct_card length_map)
  also have "\<dots> \<le> card (set ids)"
    by (rule card_mono) (auto simp: findManyCFs_def)
  finally show ?thesis .
qed

text \<open>
  C9. The request schema only asks for a non-empty list of ids and a non-empty
  instance id. When a request that passes it names some id twice, the store (whose ids
  are a primary key) returns each record once, the count check fails, and the whole
  batch is answered with SOME_CFS_NOT_FOUND, whether or not every id is valid.
\<close>

theorem duplicate_ids_rejected:
  assumes "deployMultipleSchema b"
    and "findInstance (instanceId b) userId (store s) = Some inst"
    and "primaryKeys (store s)"
    and "\<not> distinct (personalCFIds b)"
  shows "post_deploy_multiple env userId b s =
           ((404, ErrorBody ''SOME_CFS_NOT_FOUND'' ''Some custom formats were not found''), s)"
proof -
  have "card (set (personalCFIds b)) < length (personalCFIds b)"
    using assms(4) card_distinct card_length le_neq_implies_less by blast
  with length_findManyCFs [of "store s" "personalCFIds b" userId] assms(3)
  have "length (findManyCFs (personalCFIds b) userId (store s)) \<noteq> length (personalCFIds b)"
    by (simp add: primaryKeys_def)
  with assms(1,2) show ?thesis by (simp add: post_deploy_multiple_def Let_def)
qed

text \<open>The id of a valid, owned, live record, requested twice.\<close>

theorem duplicate_ids_rejected_witness:
  "deployMultipleSchema deployTwice \<and>
   findInstance (instanceId deployTwice) ''u1'' (store sampleSys) = Some sampleInstance \<and>
   primaryKeys (store sampleSys) \<and> \<not> distinct (personalCFIds deployTwice) \<and>
   findOwnedCF ''a'' ''u1'' (store sampleSys) = Some (sampleCF ''a'' ''A'' 1) \<and>
   post_deploy_multiple sampleEnv ''u1'' deployTwice sampleSys =
     ((404, ErrorBody ''SOME_CFS_NOT_FOUND'' ''Some custom formats were not found''), sampleSys)"
proof -
  have h: "deployMultipleSchema deployTwice"
    "findInstance (instanceId deployTwice) ''u1'' (store sampleSys) = Some sampleInstance"
    "primaryKeys (store sampleSys)" "\<not> distinct (personalCFIds deployTwice)"
    "findOwnedCF ''a'' ''u1'' (store sampleSys) = Some (sampleCF ''a'' ''A'' 1)"
    by (simp_all add: deployMultipleSchema_def findInstance_def deployTwice_def sampleSys_def
        sampleDb_def sampleInstance_def sonarrInstance_def sampleCF_def primaryKeys_def
        findOwnedCF_def)
  from duplicate_ids_rejected [OF h(1-4), of sampleEnv] h show ?thesis by simp
qed

section \<open>Uniqueness of names\<close>

lemma findOwnedCF_SomeD:
  assumes "findOwnedCF i userId d = Some cf"
  shows "cf \<in> set (personalCustomFormat d)" "cf_id cf = i" "cf_userId cf = userId" "deletedAt cf = None"
  using assms by (auto simp: findOwnedCF_def find_Some_iff)

text \<open>While a non-deleted record of the caller has the name and service type, a valid
  create request is answered 409 and the store is unchanged.\<close>

lemma create_conflict:
  assumes "createPersonalCFSchema b"
    and "findByName userId (req_name b) (req_serviceType b) d \<noteq> None"
  shows "\<exists>msg. post_personalCF userId b newId now d = ((409, ErrorBody ''DUPLICATE_NAME'' msg), d)"
  using assms by (auto simp: post_personalCF_def)

text \<open>
  After DELETE /:id the row is still in the table, with its name. Whenever the
  handler's lookup (which skips deleted rows) lets the same create request through, the
  storage refuses the insert and the handler answers 500 CREATE_FAILED; nothing is
  created.
\<close>

lemma recreate_refused:
  assumes schema: "createPersonalCFSchema b"
    and f: "findOwnedCF i userId d = Some cf"
    and same: "cf_name cf = req_name b" "serviceType cf = req_serviceType b"
    and lookup: "findByName userId (req_name b) (req_serviceType b)
                   (db_update_cf i (\<lambda>r. r\<lparr>deletedAt := Some t\<rparr>) d) = None"
  shows "\<exists>msg. post_personalCF userId b newId now (db_update_cf i (\<lambda>r. r\<lparr>deletedAt := Some t\<rparr>) d)
           = ((500, ErrorBody ''CREATE_FAILED'' msg),
              db_update_cf i (\<lambda>r. r\<lparr>deletedAt := Some t\<rparr>) d)"
proof -
  let ?d1 = "db_update_cf i (\<lambda>r. r\<lparr>deletedAt := Some t\<rparr>) d"
  let ?new = "\<lparr> cf_id = newId, cf_userId = userId, cf_name = req_name b,
                serviceType = req_serviceType b,
                includeCustomFormatWhenRenaming =
                  (case req_includeCustomFormatWhenRenaming b of None \<Rightarrow> False | Some v \<Rightarrow> v),
                specifications = req_specifications b,
                version = 1, createdAt = now, updatedAt = now, deletedAt = None \<rparr>"
  note cf = findOwnedCF_SomeD [OF f]
  have "map nameKey (personalCustomFormat ?d1) = map nameKey (personalCustomFormat d)"
    by (simp add: db_update_cf_def nameKey_def comp_def if_distrib cong: if_cong)
  moreover have "nameKey cf \<in> set (map nameKey (personalCustomFormat d))"
    using cf(1) by simp
  moreover have "nameKey ?new = nameKey cf"
    using cf same by (simp add: nameKey_def)
  ultimately have mem: "nameKey ?new \<in> set (map nameKey (personalCustomFormat ?d1))"
    by simp
  have "\<exists>err. db_create_cf ?new ?d1 = Inl err"
  proof (cases "cf_id ?new \<in> set (map cf_id (personalCustomFormat ?d1))")
    case True
    then show ?thesis unfolding db_create_cf_def by (simp only: if_True) blast
  next
    case False
    with mem show ?thesis unfolding db_create_cf_def by (simp only: if_True if_False) blast
  qed
  then obtain err where "db_create_cf ?new ?d1 = Inl err" ..
  with schema lookup show ?thesis
    by (simp add: post_personalCF_def Let_def)
qed

text \<open>
  C8. Record A of the sample store is live. Creating A again answers 409
  DUPLICATE_NAME and leaves the store as it was. After DELETE of A the handler's
  duplicate lookup finds nothing, yet the same create request answers 500
  CREATE_FAILED, not 201: the soft-deleted row still holds (owner, name, service type)
  under the storage's unique constraint. No record of version 1 is created.
\<close>

theorem recreate_after_soft_delete_refused:
  "post_personalCF ''u1'' createA ''n1'' 8 sampleDb
     = ((409, ErrorBody ''DUPLICATE_NAME''
               (''A custom format named '' @ quoted ''A'' @ '' already exists for RADARR'')),
        sampleDb) \<and>
   delete_personalCF ''u1'' ''a'' 7 sampleDb
     = ((200, Data (''Deleted custom format '' @ quoted ''A'')),
        db_update_cf ''a'' (\<lambda>r. r\<lparr>deletedAt := Some 7\<rparr>) sampleDb) \<and>
   findByName ''u1'' ''A'' RADARR (db_update_cf ''a'' (\<lambda>r. r\<lparr>deletedAt := Some 7\<rparr>) sampleDb)
     = None \<and>
   post_personalCF ''u1'' createA ''n1'' 8 (db_update_cf ''a'' (\<lambda>r. r\<lparr>deletedAt := Some 7\<rparr>) sampleDb)
     = ((500, ErrorBody ''CREATE_FAILED''
               ''Unique constraint failed on the fields: (userId,name,serviceType)''),
        db_update_cf ''a'' (\<lambda>r. r\<lparr>deletedAt := Some 7\<rparr>) sampleDb)"
  by (simp add: post_personalCF_def delete_personalCF_def createPersonalCFSchema_def
      createA_def findByName_def findOwnedCF_def db_create_cf_def db_update_cf_def
      nameKey_def sampleDb_def sampleCF_def)

section \<open>Drift detection\<close>

lemma allPresent_Some: "allPresent xs = Some ys \<Longrightarrow> xs = map Some ys"
  by (induction xs arbitrary: ys rule: allPresent.induct) (auto split: option.splits)

lemma allPresent_map_Some: "allPresent (map Some ys) = Some ys"
  by (induction ys) auto

lemma includeRelations_SomeD:
  assumes "includeRelations d r = Some x"
  shows "\<exists>cf i. x = (r, cf, i) \<and>
           List.find (\<lambda>cf. cf_id cf = dep_personalCFId r) (personalCustomFormat d) = Some cf \<and>
           List.find (\<lambda>i. inst_id i = dep_instanceId r) (serviceInstance d) = Some i"
  using assms by (auto simp: includeRelations_def split: option.splits)

lemma map_Some_fst:
  "map f xs = map Some ys \<Longrightarrow> (\<And>x y. f x = Some y \<Longrightarrow> fst y = x) \<Longrightarrow> map fst ys = xs"
  by (induction xs arbitrary: ys) auto

lemma findManyDeployments_SomeD:
  assumes "findManyDeployments userId q d = Some rows"
  shows "map fst rows = filter (whereDeployment userId q) (personalCFDeployment d)"
    and "x \<in> set rows \<Longrightarrow> includeRelations d (fst x) = Some x"
proof -
  let ?scope = "filter (whereDeployment userId q) (personalCFDeployment d)"
  have eq: "map (includeRelations d) ?scope = map Some rows"
    using assms by (auto simp: findManyDeployments_def dest: allPresent_Some)
  show "map fst rows = ?scope"
    by (rule map_Some_fst [OF eq]) (auto dest: includeRelations_SomeD)
  show "includeRelations d (fst x) = Some x" if "x \<in> set rows"
  proof -
    from that have "Some x \<in> set (map (includeRelations d) ?scope)" by (simp add: eq)
    then obtain r where "includeRelations d r = Some x" by auto
    then show ?thesis using includeRelations_SomeD [of d r x] by auto
  qed
qed

lemma mset_orderDeployments: "mset (orderDeployments xs) = mset xs"
  by (simp add: orderDeployments_def)

lemma set_orderDeployments: "set (orderDeployments xs) = set xs"
  by (simp add: orderDeployments_def)

lemma needsUpdate_format: "needsUpdate (formatDeployment x) = driftFilter None x"
  by (cases x) simp

lemma driftFilter_Some:
  "driftFilter (Some st) = (\<lambda>x. driftFilter None x \<and> upd_serviceType (formatUpdate x) = st)"
  by (auto simp: fun_eq_iff)

text \<open>
  C6. Drift is not a column: \<open>needsUpdate\<close> exists only in the shape GET /deployments
  returns. Whenever the route answers 200, every entry it returns comes from a
  deployment row and the record that row points to, and its \<open>needsUpdate\<close> is exactly
  "the record's version now is greater than the row's \<open>deployedVersion\<close>"; the entries
  are the caller's rows in scope, each once. GET /updates on the same store, without a
  service type, returns exactly the entries of GET /deployments with \<open>needsUpdate\<close>
  (as multisets of id, deployed and current version); with a service type it returns
  those of them whose record has that type.
\<close>

theorem drift_read_time:
  assumes "get_deployments userId q d = (200, Data views)"
  shows "(\<forall>v \<in> set views. \<exists>r cf.
            r \<in> set (personalCFDeployment d) \<and>
            List.find (\<lambda>cf. cf_id cf = dep_personalCFId r) (personalCustomFormat d) = Some cf \<and>
            view_id v = dep_id r \<and> personalCFId v = dep_personalCFId r \<and>
            deployedVersion v = dep_deployedVersion r \<and> currentVersion v = version cf \<and>
            needsUpdate v = (version cf > dep_deployedVersion r))
       \<and> mset (map view_id views) =
           mset (map dep_id (filter (whereDeployment userId q) (personalCFDeployment d)))
       \<and> (\<exists>resp. get_updates userId q None d = (200, Data resp) \<and>
            mset (map (\<lambda>u. (deploymentId u, upd_deployedVersion u, upd_currentVersion u))
                    (updates resp)) =
            mset (map (\<lambda>v. (view_id v, deployedVersion v, currentVersion v))
                    (filter needsUpdate views)) \<and>
            (\<forall>st. \<exists>resp'. get_updates userId q (Some st) d = (200, Data resp') \<and>
                  updates resp' = filter (\<lambda>u. upd_serviceType u = st) (updates resp)))"
proof -
  from assms obtain rows where rows: "findManyDeployments userId q d = Some rows"
    and views: "views = map formatDeployment (orderDeployments rows)"
    by (auto simp: get_deployments_def split: option.splits)
  note D = findManyDeployments_SomeD [OF rows]
  have 1: "\<forall>v \<in> set views. \<exists>r cf.
            r \<in> set (personalCFDeployment d) \<and>
            List.find (\<lambda>cf. cf_id cf = dep_personalCFId r) (personalCustomFormat d) = Some cf \<and>
            view_id v = dep_id r \<and> personalCFId v = dep_personalCFId r \<and>
            deployedVersion v = dep_deployedVersion r \<and> currentVersion v = version cf \<and>
            needsUpdate v = (version cf > dep_deployedVersion r)"
  proof
    fix v assume "v \<in> set views"
    then obtain x where x: "x \<in> set rows" "v = formatDeployment x"
      by (auto simp: views set_orderDeployments)
    from D(2) [OF x(1)] obtain cf i where xi: "x = (fst x, cf, i)"
      "List.find (\<lambda>cf. cf_id cf = dep_personalCFId (fst x)) (personalCustomFormat d) = Some cf"
      by (auto dest!: includeRelations_SomeD)
    have "fst x \<in> set (map fst rows)" using x(1) by simp
    then have "fst x \<in> set (personalCFDeployment d)" unfolding D(1) by simp
    moreover have "v = formatDeployment (fst x, cf, i)" using x(2) xi(1) by simp
    ultimately show "\<exists>r cf.
            r \<in> set (personalCFDeployment d) \<and>
            List.find (\<lambda>cf. cf_id cf = dep_personalCFId r) (personalCustomFormat d) = Some cf \<and>
            view_id v = dep_id r \<and> personalCFId v = dep_personalCFId r \<and>
            deployedVersion v = dep_deployedVersion r \<and> currentVersion v = version cf \<and>
            needsUpdate v = (version cf > dep_deployedVersion r)"
      using xi(2) by (intro exI [of _ "fst x"] exI [of _ cf]) simp
  qed
  have vid: "view_id \<circ> formatDeployment = dep_id \<circ> fst"
    by (auto simp: fun_eq_iff)
  have "mset (map view_id views) = image_mset (view_id \<circ> formatDeployment) (mset (orderDeployments rows))"
    unfolding views by (simp add: multiset.map_comp)
  also have "\<dots> = image_mset (dep_id \<circ> fst) (mset rows)"
    by (simp only: vid mset_orderDeployments)
  also have "\<dots> = mset (map dep_id (map fst rows))"
    by (simp add: multiset.map_comp)
  also have "\<dots> = mset (map dep_id (filter (whereDeployment userId q) (personalCFDeployment d)))"
    by (simp only: D(1))
  finally have 2: "mset (map view_id views) =
      mset (map dep_id (filter (whereDeployment userId q) (personalCFDeployment d)))" .
  let ?resp = "\<lambda>sq. (let upds = map formatUpdate (filter (driftFilter sq) rows)
           in \<lparr> hasUpdates = (length upds > 0), updates = upds,
                          totalDeployed = length rows, outdatedCount = length upds \<rparr>)"
  have gu: "get_updates userId q sq d = (200, Data (?resp sq))" for sq
    by (simp add: get_updates_def rows)
  have tr: "(\<lambda>u. (deploymentId u, upd_deployedVersion u, upd_currentVersion u)) \<circ> formatUpdate
          = (\<lambda>v. (view_id v, deployedVersion v, currentVersion v)) \<circ> formatDeployment"
    by (auto simp: fun_eq_iff)
  have "mset (map (\<lambda>u. (deploymentId u, upd_deployedVersion u, upd_currentVersion u))
                    (updates (?resp None)))
      = image_mset ((\<lambda>u. (deploymentId u, upd_deployedVersion u, upd_currentVersion u)) \<circ> formatUpdate)
          (filter_mset (driftFilter None) (mset rows))"
    by (simp add: Let_def multiset.map_comp)
  also have "\<dots> = image_mset ((\<lambda>v. (view_id v, deployedVersion v, currentVersion v)) \<circ> formatDeployment)
          (filter_mset (driftFilter None) (mset (orderDeployments rows)))"
    by (simp only: tr mset_orderDeployments)
  also have "\<dots> = mset (map (\<lambda>v. (view_id v, deployedVersion v, currentVersion v))
                    (filter needsUpdate views))"
    unfolding views
    by (simp add: filter_map comp_def needsUpdate_format multiset.map_comp)
  finally have 3: "mset (map (\<lambda>u. (deploymentId u, upd_deployedVersion u, upd_currentVersion u))
                    (updates (?resp None))) = mset (map (\<lambda>v. (view_id v, deployedVersion v, currentVersion v))
                    (filter needsUpdate views))" .
  have 4: "updates (?resp (Some st)) = filter (\<lambda>u. upd_serviceType u = st) (updates (?resp None))" for st
    by (simp add: Let_def filter_map comp_def driftFilter_Some)
  from 1 2 3 4 gu show ?thesis by blast
qed


text \<open>
  After the sample deployment A is tracked at version 1 and C at version 2; resubmitting
  A's specifications makes A version 2. A then needs an update, C does not.
\<close>

theorem drift_read_time_witness:
  "get_deployments ''u1'' None driftDb = (200, Data driftViews) \<and>
   map (\<lambda>v. (personalCFId v, deployedVersion v, currentVersion v, needsUpdate v)) driftViews
     = [(''c'', 2, 2, False), (''a'', 1, 2, True)] \<and>
   (\<exists>resp. get_updates ''u1'' None None driftDb = (200, Data resp) \<and>
      mset (map (\<lambda>u. (deploymentId u, upd_deployedVersion u, upd_currentVersion u)) (updates resp))
        = mset (map (\<lambda>v. (view_id v, deployedVersion v, currentVersion v))
                  (filter needsUpdate driftViews)))"
proof -
  have run: "get_deployments ''u1'' None driftDb = (200, Data driftViews)"
    by code_simp
  have "map (\<lambda>v. (personalCFId v, deployedVersion v, currentVersion v, needsUpdate v)) driftViews
     = [(''c'', 2, 2, False), (''a'', 1, 2, True)]"
    by (simp add: driftViews_def)
  with drift_read_time [OF run] run show ?thesis by blast
qed

lemma foreignKeys_findMany:
  assumes "foreignKeys d"
  shows "\<exists>rows. findManyDeployments userId q d = Some rows"
proof -
  have "\<exists>ys. map (includeRelations d) xs = map Some ys"
    if "list_all (\<lambda>r. includeRelations d r \<noteq> None) xs" for xs
    using that
  proof (induction xs)
    case Nil
    then show ?case by simp
  next
    case (Cons x xs)
    then obtain ys y where "map (includeRelations d) xs = map Some ys" "includeRelations d x = Some y"
      by auto
    then have "map (includeRelations d) (x # xs) = map Some (y # ys)" by simp
    then show ?case by blast
  qed
  moreover have "list_all (\<lambda>r. includeRelations d r \<noteq> None)
      (filter (whereDeployment userId q) (personalCFDeployment d))"
    using assms by (auto simp: foreignKeys_def list_all_iff)
  ultimately obtain ys where "map (includeRelations d)
      (filter (whereDeployment userId q) (personalCFDeployment d)) = map Some ys"
    by blast
  then show ?thesis by (simp add: findManyDeployments_def allPresent_map_Some)
qed

text \<open>
  C10. Neither listing filters on \<open>deletedAt\<close>. In a store whose deployment rows all
  have their record and instance, a row in the caller's scope whose record is
  soft-deleted is still returned by GET /deployments, with \<open>needsUpdate\<close> computed by
  the same comparison, and GET /updates returns it whenever the record's version is
  greater than the deployed one (and the service type filter, if any, matches).
\<close>

theorem tombstoned_still_listed:
  assumes fk: "foreignKeys d"
    and r: "r \<in> set (personalCFDeployment d)" "whereDeployment userId q r"
    and cf: "List.find (\<lambda>cf. cf_id cf = dep_personalCFId r) (personalCustomFormat d) = Some cf"
    and del: "deletedAt cf = Some t"
  shows "\<exists>views resp i.
           get_deployments userId q d = (200, Data views) \<and>
           formatDeployment (r, cf, i) \<in> set views \<and>
           needsUpdate (formatDeployment (r, cf, i)) = (version cf > dep_deployedVersion r) \<and>
           get_updates userId q sq d = (200, Data resp) \<and>
           (version cf > dep_deployedVersion r \<and> (sq = None \<or> sq = Some (serviceType cf))
              \<longrightarrow> formatUpdate (r, cf, i) \<in> set (updates resp))"
proof -
  from foreignKeys_findMany [OF fk] obtain rows where
    rows: "findManyDeployments userId q d = Some rows" by blast
  from fk r(1) obtain x where "includeRelations d r = Some x"
    by (auto simp: foreignKeys_def list_all_iff)
  with cf obtain i where inc: "includeRelations d r = Some (r, cf, i)"
    by (auto dest: includeRelations_SomeD)
  have "map (includeRelations d) (filter (whereDeployment userId q) (personalCFDeployment d))
          = map Some rows"
    using rows by (auto simp: findManyDeployments_def dest: allPresent_Some)
  moreover have "Some (r, cf, i) \<in>
      set (map (includeRelations d) (filter (whereDeployment userId q) (personalCFDeployment d)))"
    using r inc by force
  ultimately have mem: "(r, cf, i) \<in> set rows" by auto
  have gd: "get_deployments userId q d = (200, Data (map formatDeployment (orderDeployments rows)))"
    by (simp add: get_deployments_def rows)
  let ?upds = "map formatUpdate (filter (driftFilter sq) rows)"
  have gu: "get_updates userId q sq d =
      (200, Data \<lparr> hasUpdates = (length ?upds > 0), updates = ?upds,
                          totalDeployed = length rows, outdatedCount = length ?upds \<rparr>)"
    by (simp add: get_updates_def rows Let_def)
  have v: "formatDeployment (r, cf, i) \<in> set (map formatDeployment (orderDeployments rows))"
    using mem by (simp only: set_map set_orderDeployments image_eqI)
  have u: "formatUpdate (r, cf, i) \<in> set ?upds"
    if "version cf > dep_deployedVersion r \<and> (sq = None \<or> sq = Some (serviceType cf))"
  proof -
    from that have "driftFilter sq (r, cf, i)" by (cases sq) auto
    with mem have "(r, cf, i) \<in> set (filter (driftFilter sq) rows)" by simp
    then show ?thesis by (simp only: set_map image_eqI)
  qed
  have n: "needsUpdate (formatDeployment (r, cf, i)) = (version cf > dep_deployedVersion r)"
    by simp
  have "get_deployments userId q d = (200, Data (map formatDeployment (orderDeployments rows))) \<and>
      formatDeployment (r, cf, i) \<in> set (map formatDeployment (orderDeployments rows)) \<and>
      needsUpdate (formatDeployment (r, cf, i)) = (version cf > dep_deployedVersion r) \<and>
      get_updates userId q sq d =
        (200, Data \<lparr> hasUpdates = (length ?upds > 0), updates = ?upds,
                          totalDeployed = length rows, outdatedCount = length ?upds \<rparr>) \<and>
      (version cf > dep_deployedVersion r \<and> (sq = None \<or> sq = Some (serviceType cf))
          \<longrightarrow> formatUpdate (r, cf, i) \<in> set (updates \<lparr> hasUpdates = (length ?upds > 0), updates = ?upds,
                          totalDeployed = length rows, outdatedCount = length ?upds \<rparr>))"
    using gd v n gu u by simp
  then show ?thesis by blast
qed


text \<open>Record C is soft-deleted at version 2 and tracked at version 1.\<close>

theorem tombstoned_still_listed_witness:
  "foreignKeys trackedDb \<and>
   sampleRow ''d2'' ''c'' 8 1 90 \<in> set (personalCFDeployment trackedDb) \<and>
   whereDeployment ''u1'' None (sampleRow ''d2'' ''c'' 8 1 90) \<and>
   List.find (\<lambda>cf. cf_id cf = dep_personalCFId (sampleRow ''d2'' ''c'' 8 1 90))
     (personalCustomFormat trackedDb) = Some tombstoneC \<and>
   deletedAt tombstoneC = Some 9 \<and>
   version tombstoneC > dep_deployedVersion (sampleRow ''d2'' ''c'' 8 1 90) \<and>
   (\<exists>views resp i.
      get_deployments ''u1'' None trackedDb = (200, Data views) \<and>
      formatDeployment (sampleRow ''d2'' ''c'' 8 1 90, tombstoneC, i) \<in> set views \<and>
      needsUpdate (formatDeployment (sampleRow ''d2'' ''c'' 8 1 90, tombstoneC, i)) \<and>
      get_updates ''u1'' None None trackedDb = (200, Data resp) \<and>
      formatUpdate (sampleRow ''d2'' ''c'' 8 1 90, tombstoneC, i) \<in> set (updates resp))"
proof -
  have h: "foreignKeys trackedDb"
    "sampleRow ''d2'' ''c'' 8 1 90 \<in> set (personalCFDeployment trackedDb)"
    "whereDeployment ''u1'' None (sampleRow ''d2'' ''c'' 8 1 90)"
    "List.find (\<lambda>cf. cf_id cf = dep_personalCFId (sampleRow ''d2'' ''c'' 8 1 90))
       (personalCustomFormat trackedDb) = Some tombstoneC"
    "deletedAt tombstoneC = Some 9"
    by (simp_all add: foreignKeys_def includeRelations_def trackedDb_def sampleRow_def
        tombstoneC_def sampleCF_def whereDeployment_def sampleInstance_def sonarrInstance_def)
  have v: "version tombstoneC > dep_deployedVersion (sampleRow ''d2'' ''c'' 8 1 90)"
    by (simp add: tombstoneC_def sampleCF_def sampleRow_def)
  from tombstoned_still_listed [OF h, of None] v h show ?thesis
    by simp
qed


section \<open>The deployment ledger\<close>

text \<open>What a successful upsert does to the deployment table.\<close>

lemma gather_append [simp]: "gather f (xs @ ys) = gather f xs @ gather f ys"
  by (simp add: gather_def)

lemma gather_Nil [simp]: "gather f [] = []"
  by (simp add: gather_def)

lemma gather_Cons [simp]: "gather f (x # xs) = f x @ gather f xs"
  by (simp add: gather_def)

lemma filter_key_singleton:
  "distinct (map f xs) \<Longrightarrow> x \<in> set xs \<Longrightarrow> filter (\<lambda>y. f y = f x) xs = [x]"
proof (induction xs)
  case Nil
  then show ?case by simp
next
  case (Cons a xs)
  show ?case
  proof (cases "a = x")
    case True
    with Cons.prems have "filter (\<lambda>y. f y = f x) xs = []"
      by (auto simp: filter_empty_conv image_iff)
    with True show ?thesis by simp
  next
    case False
    with Cons show ?thesis by (auto simp: image_iff)
  qed
qed

lemma hasKey_ledgerKey: "hasKey inst cf r \<longleftrightarrow> ledgerKey r = (inst, cf)"
  by (auto simp: hasKey_def ledgerKey_def)

lemma upsert_tables:
  assumes "db_upsert_deployment inst cf upd crt d = Inr d'"
  shows "personalCustomFormat d' = personalCustomFormat d" "serviceInstance d' = serviceInstance d"
  using assms by (auto simp: db_upsert_deployment_def split: if_splits)

lemma upsert_unique:
  assumes up: "db_upsert_deployment inst cf upd crt d = Inr d'"
    and ku: "\<And>r. ledgerKey (upd r) = ledgerKey r" and kc: "ledgerKey crt = (inst, cf)"
    and u: "ledgerUnique d"
  shows "ledgerUnique d'"
proof (cases "list_ex (hasKey inst cf) (personalCFDeployment d)")
  case True
  with up have d': "personalCFDeployment d' =
      map (\<lambda>r. if hasKey inst cf r then upd r else r) (personalCFDeployment d)"
    by (auto simp: db_upsert_deployment_def)
  have "map ledgerKey (personalCFDeployment d') = map ledgerKey (personalCFDeployment d)"
    unfolding d' by (simp add: comp_def if_distrib ku cong: if_cong)
  with u show ?thesis by (simp add: ledgerUnique_def)
next
  case False
  with up have d': "personalCFDeployment d' = personalCFDeployment d @ [crt]"
    by (auto simp: db_upsert_deployment_def split: if_splits)
  from False have "(inst, cf) \<notin> set (map ledgerKey (personalCFDeployment d))"
    by (auto simp: list_ex_iff hasKey_ledgerKey)
  with u show ?thesis by (simp add: ledgerUnique_def d' kc)
qed

lemma upsert_row:
  assumes up: "db_upsert_deployment inst cf upd crt d = Inr d'"
    and ku: "\<And>r. ledgerKey (upd r) = ledgerKey r" and kc: "ledgerKey crt = (inst, cf)"
    and u: "ledgerUnique d"
    and Q: "\<And>r. Q (upd r)" "Q crt"
  shows "\<exists>row. filter (hasKey inst cf) (personalCFDeployment d') = [row] \<and> Q row"
proof (cases "list_ex (hasKey inst cf) (personalCFDeployment d)")
  case True
  with up have d': "personalCFDeployment d' =
      map (\<lambda>r. if hasKey inst cf r then upd r else r) (personalCFDeployment d)"
    by (auto simp: db_upsert_deployment_def)
  from True obtain r0 where r0: "r0 \<in> set (personalCFDeployment d)" "ledgerKey r0 = (inst, cf)"
    by (auto simp: list_ex_iff hasKey_ledgerKey)
  have "filter (hasKey inst cf) (map (\<lambda>r. if hasKey inst cf r then upd r else r) xs)
      = map upd (filter (hasKey inst cf) xs)" for xs
    by (induction xs) (auto simp: hasKey_ledgerKey ku)
  moreover have "filter (hasKey inst cf) (personalCFDeployment d) = [r0]"
    using filter_key_singleton [of ledgerKey "personalCFDeployment d" r0] u r0
    by (simp add: ledgerUnique_def hasKey_ledgerKey [abs_def])
  ultimately have "filter (hasKey inst cf) (personalCFDeployment d') = [upd r0]"
    by (simp add: d')
  with Q show ?thesis by simp
next
  case False
  with up have d': "personalCFDeployment d' = personalCFDeployment d @ [crt]"
    by (auto simp: db_upsert_deployment_def split: if_splits)
  from False have "filter (hasKey inst cf) (personalCFDeployment d) = []"
    by (auto simp: list_ex_iff filter_empty_conv)
  then have "filter (hasKey inst cf) (personalCFDeployment d') = [crt]"
    by (simp add: d' hasKey_ledgerKey kc)
  with Q show ?thesis by simp
qed

lemma upsert_others:
  assumes up: "db_upsert_deployment inst cf upd crt d = Inr d'"
    and ku: "\<And>r. ledgerKey (upd r) = ledgerKey r" and kc: "ledgerKey crt = (inst, cf)"
    and k: "k \<noteq> (inst, cf)"
  shows "filter (\<lambda>r. ledgerKey r = k) (personalCFDeployment d')
       = filter (\<lambda>r. ledgerKey r = k) (personalCFDeployment d)"
proof (cases "list_ex (hasKey inst cf) (personalCFDeployment d)")
  case True
  with up have d': "personalCFDeployment d' =
      map (\<lambda>r. if hasKey inst cf r then upd r else r) (personalCFDeployment d)"
    by (auto simp: db_upsert_deployment_def)
  have "filter (\<lambda>r. ledgerKey r = k) (map (\<lambda>r. if hasKey inst cf r then upd r else r) xs)
      = filter (\<lambda>r. ledgerKey r = k) xs" for xs
    using k by (induction xs) (auto simp: hasKey_ledgerKey ku)
  then show ?thesis by (simp add: d')
next
  case False
  with up have d': "personalCFDeployment d' = personalCFDeployment d @ [crt]"
    by (auto simp: db_upsert_deployment_def split: if_splits)
  with k kc show ?thesis by auto
qed

lemma upsert_keys:
  assumes up: "db_upsert_deployment inst cf upd crt d = Inr d'"
    and ku: "\<And>r. ledgerKey (upd r) = ledgerKey r" and kc: "ledgerKey crt = (inst, cf)"
  shows "set (map ledgerKey (personalCFDeployment d'))
       = insert (inst, cf) (set (map ledgerKey (personalCFDeployment d)))"
proof (cases "list_ex (hasKey inst cf) (personalCFDeployment d)")
  case True
  with up have d': "personalCFDeployment d' =
      map (\<lambda>r. if hasKey inst cf r then upd r else r) (personalCFDeployment d)"
    by (auto simp: db_upsert_deployment_def)
  have "map ledgerKey (personalCFDeployment d') = map ledgerKey (personalCFDeployment d)"
    unfolding d' by (simp add: comp_def if_distrib ku cong: if_cong)
  moreover from True have "(inst, cf) \<in> set (map ledgerKey (personalCFDeployment d))"
    by (force simp: list_ex_iff hasKey_ledgerKey)
  ultimately show ?thesis by auto
next
  case False
  with up have d': "personalCFDeployment d' = personalCFDeployment d @ [crt]"
    by (auto simp: db_upsert_deployment_def split: if_splits)
  then show ?thesis by (simp add: kc)
qed


section \<open>The deployment loop\<close>

text \<open>What one pass of the loop body adds to the log, the results and the store.\<close>

lemma newCalls_append: "calls s' = calls s @ evs \<Longrightarrow> newCalls s s' = evs"
  by (simp add: newCalls_def)

lemma recordDeployment_effect:
  assumes "recordDeployment env userId inst cf idopt s = (out, s')"
  shows "\<exists>at. calls s' = calls s @ [UpsertCall cf inst idopt at out] \<and>
           (case out of
              Some err \<Rightarrow> store s' = store s
            | None \<Rightarrow> (\<exists>n rowid. idopt = Some n \<and> at = newDate env (world s) \<and>
                 db_upsert_deployment inst (cf_id cf)
                   (\<lambda>r. r\<lparr> dep_instanceCFId := n,
                            dep_deployedVersion := version cf,
                            dep_deployedSpecsSnapshot := specifications cf,
                            dep_deployedAt := at \<rparr>)
                   \<lparr> dep_id = rowid, dep_userId = userId,
                     dep_personalCFId = cf_id cf, dep_instanceId = inst,
                     dep_instanceCFId = n, dep_deployedVersion = version cf,
                     dep_deployedSpecsSnapshot = specifications cf,
                     dep_deployedAt = at \<rparr>
                   (store s) = Inr (store s')))"
  using assms
  by (auto simp: recordDeployment_def logCall_def Let_def
           split: option.splits prod.splits sum.splits)

lemma remoteCall_effect:
  assumes "remoteCall ac existing cf ts (res, s) = (out, res1, s1)"
  shows "store s1 = store s \<and>
         (\<exists>e. calls s1 = calls s @ [e] \<and>
            (case existingWithId existing of
               Some (rid, e0) \<Rightarrow> (\<exists>payload. e = UpdateCall cf rid payload (case out of Inl err \<Rightarrow> Some err | Inr _ \<Rightarrow> None))
             | None \<Rightarrow> (\<exists>payload. e = CreateCall cf payload (case out of Inl err \<Rightarrow> Some err | Inr _ \<Rightarrow> None))) \<and>
            (case out of
               Inl err \<Rightarrow> res1 = res
             | Inr idopt \<Rightarrow> created res1 = created res @ createReturned e \<and>
                            updated res1 = updated res @ updateReturned e \<and>
                            failed res1 = failed res))"
  using assms
  by (auto simp: remoteCall_def logCall_def Let_def
           split: option.splits prod.splits sum.splits)


lemma deployOne_log_ex:
  assumes "deployOne env ac userId inst byName (res, s) cf = (res', s')"
  shows "\<exists>evs. calls s' = calls s @ evs \<and>
     gather listCall evs = [] \<and>
     gather remoteTarget evs = [(cf, map_option fst (existingWithId (byName (cf_name cf))))] \<and>
     created res' = created res @ gather createReturned evs \<and>
     updated res' = updated res @ gather updateReturned evs \<and>
     failed res' = failed res @ gather failure evs \<and>
     gather upsertCall evs = gather remoteReturned evs \<and>
     map fst (gather settled evs) = [cf] \<and>
     gather upsertReturned evs = map fst (gather upsertWritten evs) \<and>
     set (gather remoteThrew evs) \<subseteq> {cf} \<and>
     set (gather upsertReturned evs) \<subseteq> {cf} \<and>
     (gather remoteThrew evs \<noteq> [] \<longrightarrow> gather failure evs \<noteq> [])"
proof -
  obtain out res1 s1 where rc: "remoteCall ac (byName (cf_name cf)) cf
      (map (transformSpec env) (specifications cf)) (res, s) = (out, res1, s1)"
    by (metis prod_cases3)
  from remoteCall_effect [OF rc] obtain e where e: "calls s1 = calls s @ [e]"
    "case existingWithId (byName (cf_name cf)) of
       Some (rid, e0) \<Rightarrow> (\<exists>payload. e = UpdateCall cf rid payload (case out of Inl err \<Rightarrow> Some err | Inr _ \<Rightarrow> None))
     | None \<Rightarrow> (\<exists>payload. e = CreateCall cf payload (case out of Inl err \<Rightarrow> Some err | Inr _ \<Rightarrow> None))"
    "case out of
       Inl err \<Rightarrow> res1 = res
     | Inr idopt \<Rightarrow> created res1 = created res @ createReturned e \<and>
                    updated res1 = updated res @ updateReturned e \<and>
                    failed res1 = failed res"
    by blast
  show ?thesis
  proof (cases out)
    case (Inl err)
    with assms rc have r: "res' = pushFailed cf err res1" "s' = s1"
      by (simp_all add: deployOne_def Let_def)
    from e Inl r show ?thesis
      by (intro exI [of _ "[e]"]) (auto simp: pushFailed_def split: option.splits)
  next
    case (Inr idopt)
    obtain out2 s2 where rd: "recordDeployment env userId inst cf idopt s1 = (out2, s2)"
      by (metis surj_pair)
    from recordDeployment_effect [OF rd] obtain at where
      at: "calls s2 = calls s1 @ [UpsertCall cf inst idopt at out2]"
        "out2 = None \<Longrightarrow> \<exists>n. idopt = Some n"
      by (cases out2) auto
    from assms rc rd Inr have r: "s' = s2"
      "res' = (case out2 of Some err \<Rightarrow> pushFailed cf err res1 | None \<Rightarrow> res1)"
      by (simp_all add: deployOne_def Let_def split: option.splits)
    from e Inr r at show ?thesis
      by (intro exI [of _ "[e, UpsertCall cf inst idopt at out2]"])
         (auto simp: pushFailed_def split: option.splits)
  qed
qed



lemma newCalls_split:
  assumes "calls s1 = calls s @ newCalls s s1" "calls s' = calls s1 @ newCalls s1 s'"
  shows "newCalls s s' = newCalls s s1 @ newCalls s1 s'" "calls s' = calls s @ newCalls s s'"
proof -
  have "calls s' = (calls s @ newCalls s s1) @ newCalls s1 s'"
    by (subst assms(1) [symmetric]) (rule assms(2))
  then have c: "calls s' = calls s @ (newCalls s s1 @ newCalls s1 s')"
    by (simp only: append_assoc)
  then show n: "newCalls s s' = newCalls s s1 @ newCalls s1 s'"
    by (rule newCalls_append)
  show "calls s' = calls s @ newCalls s s'"
    unfolding n by (rule c)
qed

lemma deployOne_log:
  assumes "deployOne env ac userId inst byName (res, s) cf = (res', s')"
  shows "calls s' = calls s @ newCalls s s'"
    and "gather listCall (newCalls s s') = [] \<and>
     gather remoteTarget (newCalls s s')
       = [(cf, map_option fst (existingWithId (byName (cf_name cf))))] \<and>
     created res' = created res @ gather createReturned (newCalls s s') \<and>
     updated res' = updated res @ gather updateReturned (newCalls s s') \<and>
     failed res' = failed res @ gather failure (newCalls s s') \<and>
     gather upsertCall (newCalls s s') = gather remoteReturned (newCalls s s') \<and>
     map fst (gather settled (newCalls s s')) = [cf] \<and>
     gather upsertReturned (newCalls s s') = map fst (gather upsertWritten (newCalls s s')) \<and>
     set (gather remoteThrew (newCalls s s')) \<subseteq> {cf} \<and>
     set (gather upsertReturned (newCalls s s')) \<subseteq> {cf} \<and>
     (gather remoteThrew (newCalls s s') \<noteq> [] \<longrightarrow> gather failure (newCalls s s') \<noteq> [])"
proof -
  from deployOne_log_ex [OF assms] obtain evs where c: "calls s' = calls s @ evs"
    and rest: "gather listCall evs = [] \<and>
     gather remoteTarget evs = [(cf, map_option fst (existingWithId (byName (cf_name cf))))] \<and>
     created res' = created res @ gather createReturned evs \<and>
     updated res' = updated res @ gather updateReturned evs \<and>
     failed res' = failed res @ gather failure evs \<and>
     gather upsertCall evs = gather remoteReturned evs \<and>
     map fst (gather settled evs) = [cf] \<and>
     gather upsertReturned evs = map fst (gather upsertWritten evs) \<and>
     set (gather remoteThrew evs) \<subseteq> {cf} \<and>
     set (gather upsertReturned evs) \<subseteq> {cf} \<and>
     (gather remoteThrew evs \<noteq> [] \<longrightarrow> gather failure evs \<noteq> [])"
    by (elim exE conjE) (rule that, assumption, intro conjI, assumption+)
  have n: "newCalls s s' = evs" using c by (rule newCalls_append)
  show "calls s' = calls s @ newCalls s s'" unfolding n by (rule c)
  show "gather listCall (newCalls s s') = [] \<and>
     gather remoteTarget (newCalls s s')
       = [(cf, map_option fst (existingWithId (byName (cf_name cf))))] \<and>
     created res' = created res @ gather createReturned (newCalls s s') \<and>
     updated res' = updated res @ gather updateReturned (newCalls s s') \<and>
     failed res' = failed res @ gather failure (newCalls s s') \<and>
     gather upsertCall (newCalls s s') = gather remoteReturned (newCalls s s') \<and>
     map fst (gather settled (newCalls s s')) = [cf] \<and>
     gather upsertReturned (newCalls s s') = map fst (gather upsertWritten (newCalls s s')) \<and>
     set (gather remoteThrew (newCalls s s')) \<subseteq> {cf} \<and>
     set (gather upsertReturned (newCalls s s')) \<subseteq> {cf} \<and>
     (gather remoteThrew (newCalls s s') \<noteq> [] \<longrightarrow> gather failure (newCalls s s') \<noteq> [])"
    unfolding n by (rule rest)
qed

lemma deployOne_shape:
  assumes "deployOne env ac userId inst byName (res, s) cf = (res', s')"
  shows "(store s' = store s \<and> gather upsertReturned (newCalls s s') = [] \<and>
          gather upsertWritten (newCalls s s') = []) \<or>
         (\<exists>n at rowid.
            db_upsert_deployment inst (cf_id cf)
              (\<lambda>r. r\<lparr> dep_instanceCFId := n, dep_deployedVersion := version cf,
                       dep_deployedSpecsSnapshot := specifications cf, dep_deployedAt := at \<rparr>)
              \<lparr> dep_id = rowid, dep_userId = userId, dep_personalCFId = cf_id cf,
                dep_instanceId = inst, dep_instanceCFId = n, dep_deployedVersion = version cf,
                dep_deployedSpecsSnapshot = specifications cf, dep_deployedAt = at \<rparr>
              (store s) = Inr (store s') \<and>
            gather upsertReturned (newCalls s s') = [cf] \<and>
            gather upsertWritten (newCalls s s') = [(cf, n, at)])"
proof -
  obtain out res1 s1 where rc: "remoteCall ac (byName (cf_name cf)) cf
      (map (transformSpec env) (specifications cf)) (res, s) = (out, res1, s1)"
    by (metis prod_cases3)
  from remoteCall_effect [OF rc] obtain e where e: "calls s1 = calls s @ [e]" "store s1 = store s"
    "(\<exists>rid payload ou. e = UpdateCall cf rid payload ou) \<or> (\<exists>payload ou. e = CreateCall cf payload ou)"
    by (auto split: option.splits)
  show ?thesis
  proof (cases out)
    case (Inl err)
    with assms rc have r: "s' = s1"
      by (simp_all add: deployOne_def Let_def)
    have nc: "newCalls s s' = [e]"
      using e(1) r by (intro newCalls_append) simp
    from e r nc show ?thesis by auto
  next
    case (Inr idopt)
    obtain out2 s2 where rd: "recordDeployment env userId inst cf idopt s1 = (out2, s2)"
      by (metis surj_pair)
    from assms rc rd Inr have r: "s' = s2"
      by (simp_all add: deployOne_def Let_def split: option.splits)
    from recordDeployment_effect [OF rd] obtain at where
      at: "calls s2 = calls s1 @ [UpsertCall cf inst idopt at out2]" and
      c: "case out2 of
              Some err \<Rightarrow> store s2 = store s1
            | None \<Rightarrow> (\<exists>n rowid. idopt = Some n \<and> at = newDate env (world s1) \<and>
                 db_upsert_deployment inst (cf_id cf)
                   (\<lambda>r. r\<lparr> dep_instanceCFId := n,
                            dep_deployedVersion := version cf,
                            dep_deployedSpecsSnapshot := specifications cf,
                            dep_deployedAt := at \<rparr>)
                   \<lparr> dep_id = rowid, dep_userId = userId,
                     dep_personalCFId = cf_id cf, dep_instanceId = inst,
                     dep_instanceCFId = n, dep_deployedVersion = version cf,
                     dep_deployedSpecsSnapshot = specifications cf,
                     dep_deployedAt = at \<rparr>
                   (store s1) = Inr (store s2))"
      by blast
    have "calls s' = calls s @ [e, UpsertCall cf inst idopt at out2]"
      using e(1) at r by simp
    then have nc: "newCalls s s' = [e, UpsertCall cf inst idopt at out2]"
      by (rule newCalls_append)
    show ?thesis
    proof (cases out2)
      case None
      with c e r nc show ?thesis by auto
    next
      case (Some err)
      with c e r nc show ?thesis by auto
    qed
  qed
qed

lemma deployOne_store:
  assumes run: "deployOne env ac userId inst byName (res, s) cf = (res', s')"
  shows "personalCustomFormat (store s') = personalCustomFormat (store s)"
    and "serviceInstance (store s') = serviceInstance (store s)"
    and "ledgerUnique (store s) \<Longrightarrow> ledgerUnique (store s')"
    and "k \<noteq> (inst, cf_id cf) \<Longrightarrow>
           filter (\<lambda>r. ledgerKey r = k) (personalCFDeployment (store s'))
         = filter (\<lambda>r. ledgerKey r = k) (personalCFDeployment (store s))"
    and "set (map ledgerKey (personalCFDeployment (store s')))
       = set (map ledgerKey (personalCFDeployment (store s)))
         \<union> (\<lambda>it. (inst, cf_id it)) ` set (gather upsertReturned (newCalls s s'))"
    and "ledgerUnique (store s) \<Longrightarrow> (it, n, at) \<in> set (gather upsertWritten (newCalls s s')) \<Longrightarrow>
           \<exists>row. filter (hasKey inst (cf_id it)) (personalCFDeployment (store s')) = [row] \<and>
                 dep_instanceCFId row = n \<and> dep_deployedVersion row = version it \<and>
                 dep_deployedSpecsSnapshot row = specifications it \<and> dep_deployedAt row = at"
proof -
  note sh = deployOne_shape [OF run]
  have kc: "ledgerKey \<lparr> dep_id = rowid, dep_userId = userId, dep_personalCFId = cf_id cf,
                dep_instanceId = inst, dep_instanceCFId = n, dep_deployedVersion = version cf,
                dep_deployedSpecsSnapshot = specifications cf, dep_deployedAt = at \<rparr> = (inst, cf_id cf)"
    for rowid n at by (simp add: ledgerKey_def)
  have ku: "ledgerKey (r\<lparr> dep_instanceCFId := n, dep_deployedVersion := version cf,
                       dep_deployedSpecsSnapshot := specifications cf, dep_deployedAt := at \<rparr>) = ledgerKey r"
    for r n at by (simp add: ledgerKey_def)
  show "personalCustomFormat (store s') = personalCustomFormat (store s)"
    using sh by (auto dest: upsert_tables)
  show "serviceInstance (store s') = serviceInstance (store s)"
    using sh by (auto dest: upsert_tables)
  show "ledgerUnique (store s')" if "ledgerUnique (store s)"
    using sh that by (auto dest!: upsert_unique [OF _ ku kc])
  show "filter (\<lambda>r. ledgerKey r = k) (personalCFDeployment (store s'))
         = filter (\<lambda>r. ledgerKey r = k) (personalCFDeployment (store s))" if "k \<noteq> (inst, cf_id cf)"
    using sh that by (auto dest!: upsert_others [OF _ ku kc])
  show "set (map ledgerKey (personalCFDeployment (store s')))
       = set (map ledgerKey (personalCFDeployment (store s)))
         \<union> (\<lambda>it. (inst, cf_id it)) ` set (gather upsertReturned (newCalls s s'))"
    using sh by (auto dest!: upsert_keys [OF _ ku kc])
  show "\<exists>row. filter (hasKey inst (cf_id it)) (personalCFDeployment (store s')) = [row] \<and>
                 dep_instanceCFId row = n \<and> dep_deployedVersion row = version it \<and>
                 dep_deployedSpecsSnapshot row = specifications it \<and> dep_deployedAt row = at"
    if u: "ledgerUnique (store s)" and m: "(it, n, at) \<in> set (gather upsertWritten (newCalls s s'))"
  proof -
    from sh m obtain rowid where
      up: "db_upsert_deployment inst (cf_id cf)
              (\<lambda>r. r\<lparr> dep_instanceCFId := n, dep_deployedVersion := version cf,
                       dep_deployedSpecsSnapshot := specifications cf, dep_deployedAt := at \<rparr>)
              \<lparr> dep_id = rowid, dep_userId = userId, dep_personalCFId = cf_id cf,
                dep_instanceId = inst, dep_instanceCFId = n, dep_deployedVersion = version cf,
                dep_deployedSpecsSnapshot = specifications cf, dep_deployedAt = at \<rparr>
              (store s) = Inr (store s')" and it: "it = cf"
      by auto
    show ?thesis unfolding it
      by (rule upsert_row [OF up ku kc u]) simp_all
  qed
qed




text \<open>The same for the whole loop, by induction on the records of the batch.\<close>

lemma deployLoop_Cons:
  "deployLoop env ac userId inst byName (cf # cfs) rs
     = deployLoop env ac userId inst byName cfs (deployOne env ac userId inst byName rs cf)"
  by (simp add: deployLoop_def)

lemma deployLoop_calls:
  assumes "deployLoop env ac userId inst byName cfs (res, s) = (res', s')"
  shows "calls s' = calls s @ newCalls s s'"
  using assms
proof (induction cfs arbitrary: res s)
  case Nil
  then show ?case by (simp add: deployLoop_def newCalls_def)
next
  case (Cons cf cfs)
  obtain res1 s1 where one: "deployOne env ac userId inst byName (res, s) cf = (res1, s1)"
    by (metis surj_pair)
  with Cons.prems have rest: "deployLoop env ac userId inst byName cfs (res1, s1) = (res', s')"
    by (simp add: deployLoop_Cons)
  show ?case
    by (rule newCalls_split(2) [OF deployOne_log(1) [OF one] Cons.IH [OF rest]])
qed

lemma deployLoop_log:
  assumes "deployLoop env ac userId inst byName cfs (res, s) = (res', s')"
  shows "gather listCall (newCalls s s') = [] \<and>
     gather remoteTarget (newCalls s s')
       = map (\<lambda>cf. (cf, map_option fst (existingWithId (byName (cf_name cf))))) cfs \<and>
     created res' = created res @ gather createReturned (newCalls s s') \<and>
     updated res' = updated res @ gather updateReturned (newCalls s s') \<and>
     failed res' = failed res @ gather failure (newCalls s s') \<and>
     gather upsertCall (newCalls s s') = gather remoteReturned (newCalls s s') \<and>
     map fst (gather settled (newCalls s s')) = cfs \<and>
     gather upsertReturned (newCalls s s') = map fst (gather upsertWritten (newCalls s s')) \<and>
     set (gather remoteThrew (newCalls s s')) \<subseteq> set cfs \<and>
     set (gather upsertReturned (newCalls s s')) \<subseteq> set cfs \<and>
     (gather remoteThrew (newCalls s s') \<noteq> [] \<longrightarrow> gather failure (newCalls s s') \<noteq> [])"
  using assms
proof (induction cfs arbitrary: res s)
  case Nil
  then show ?case by (simp add: deployLoop_def newCalls_def)
next
  case (Cons cf cfs)
  obtain res1 s1 where one: "deployOne env ac userId inst byName (res, s) cf = (res1, s1)"
    by (metis surj_pair)
  with Cons.prems have rest: "deployLoop env ac userId inst byName cfs (res1, s1) = (res', s')"
    by (simp add: deployLoop_Cons)
  note nc = newCalls_split(1) [OF deployOne_log(1) [OF one] deployLoop_calls [OF rest]]
  let ?a = "newCalls s s1" and ?b = "newCalls s1 s'"
  from deployOne_log(2) [OF one] have a:
     "gather listCall ?a = []"
     "gather remoteTarget ?a = [(cf, map_option fst (existingWithId (byName (cf_name cf))))]"
     "created res1 = created res @ gather createReturned ?a"
     "updated res1 = updated res @ gather updateReturned ?a"
     "failed res1 = failed res @ gather failure ?a"
     "gather upsertCall ?a = gather remoteReturned ?a"
     "map fst (gather settled ?a) = [cf]"
     "gather upsertReturned ?a = map fst (gather upsertWritten ?a)"
     "set (gather remoteThrew ?a) \<subseteq> {cf}"
     "set (gather upsertReturned ?a) \<subseteq> {cf}"
     "gather remoteThrew ?a \<noteq> [] \<longrightarrow> gather failure ?a \<noteq> []"
    by blast+
  from Cons.IH [OF rest] have b:
     "gather listCall ?b = []"
     "gather remoteTarget ?b
        = map (\<lambda>cf. (cf, map_option fst (existingWithId (byName (cf_name cf))))) cfs"
     "created res' = created res1 @ gather createReturned ?b"
     "updated res' = updated res1 @ gather updateReturned ?b"
     "failed res' = failed res1 @ gather failure ?b"
     "gather upsertCall ?b = gather remoteReturned ?b"
     "map fst (gather settled ?b) = cfs"
     "gather upsertReturned ?b = map fst (gather upsertWritten ?b)"
     "set (gather remoteThrew ?b) \<subseteq> set cfs"
     "set (gather upsertReturned ?b) \<subseteq> set cfs"
     "gather remoteThrew ?b \<noteq> [] \<longrightarrow> gather failure ?b \<noteq> []"
    by blast+
  have 9: "set (gather remoteThrew (?a @ ?b)) \<subseteq> set (cf # cfs)"
    using a(9) b(9) by auto
  have 10: "set (gather upsertReturned (?a @ ?b)) \<subseteq> set (cf # cfs)"
    using a(10) b(10) by auto
  have 11: "gather remoteThrew (?a @ ?b) \<noteq> [] \<longrightarrow> gather failure (?a @ ?b) \<noteq> []"
    using a(11) b(11) by (simp only: gather_append append_is_Nil_conv) blast
  show ?case
    unfolding nc
    by (intro conjI 9 10 11) (simp_all add: a(1-8) b(1-8))
qed

lemma deployLoop_store:
  assumes "deployLoop env ac userId inst byName cfs (res, s) = (res', s')"
  shows "personalCustomFormat (store s') = personalCustomFormat (store s) \<and>
     serviceInstance (store s') = serviceInstance (store s) \<and>
     (ledgerUnique (store s) \<longrightarrow> ledgerUnique (store s')) \<and>
     ((\<forall>c \<in> set cfs. k \<noteq> (inst, cf_id c)) \<longrightarrow>
         filter (\<lambda>r. ledgerKey r = k) (personalCFDeployment (store s'))
       = filter (\<lambda>r. ledgerKey r = k) (personalCFDeployment (store s))) \<and>
     set (map ledgerKey (personalCFDeployment (store s')))
       = set (map ledgerKey (personalCFDeployment (store s)))
         \<union> (\<lambda>it. (inst, cf_id it)) ` set (gather upsertReturned (newCalls s s'))"
  using assms
proof (induction cfs arbitrary: res s)
  case Nil
  then show ?case by (simp add: deployLoop_def newCalls_def)
next
  case (Cons cf cfs)
  obtain res1 s1 where one: "deployOne env ac userId inst byName (res, s) cf = (res1, s1)"
    by (metis surj_pair)
  with Cons.prems have rest: "deployLoop env ac userId inst byName cfs (res1, s1) = (res', s')"
    by (simp add: deployLoop_Cons)
  note nc = newCalls_split(1) [OF deployOne_log(1) [OF one] deployLoop_calls [OF rest]]
  note st = deployOne_store [OF one]
  from Cons.IH [OF rest] have ih:
    "personalCustomFormat (store s') = personalCustomFormat (store s1)"
    "serviceInstance (store s') = serviceInstance (store s1)"
    "ledgerUnique (store s1) \<longrightarrow> ledgerUnique (store s')"
    "(\<forall>c \<in> set cfs. k \<noteq> (inst, cf_id c)) \<longrightarrow>
         filter (\<lambda>r. ledgerKey r = k) (personalCFDeployment (store s'))
       = filter (\<lambda>r. ledgerKey r = k) (personalCFDeployment (store s1))"
    "set (map ledgerKey (personalCFDeployment (store s')))
       = set (map ledgerKey (personalCFDeployment (store s1)))
         \<union> (\<lambda>it. (inst, cf_id it)) ` set (gather upsertReturned (newCalls s1 s'))"
    by blast+
  have 3: "ledgerUnique (store s) \<longrightarrow> ledgerUnique (store s')"
    using ih(3) st(3) by blast
  have 4: "(\<forall>c \<in> set (cf # cfs). k \<noteq> (inst, cf_id c)) \<longrightarrow>
         filter (\<lambda>r. ledgerKey r = k) (personalCFDeployment (store s'))
       = filter (\<lambda>r. ledgerKey r = k) (personalCFDeployment (store s))"
    using ih(4) st(4) [of k] by simp
  have 5: "set (map ledgerKey (personalCFDeployment (store s')))
       = set (map ledgerKey (personalCFDeployment (store s)))
         \<union> (\<lambda>it. (inst, cf_id it)) ` set (gather upsertReturned (newCalls s s1 @ newCalls s1 s'))"
    unfolding ih(5) st(5) by (simp add: image_Un Un_assoc)
  show ?case
    unfolding nc by (intro conjI 3 4 5) (simp_all add: ih(1,2) st(1,2))
qed

lemma deployLoop_written:
  assumes "deployLoop env ac userId inst byName cfs (res, s) = (res', s')"
    and "ledgerUnique (store s)" and "distinct (map cf_id cfs)"
    and "(it, n, at) \<in> set (gather upsertWritten (newCalls s s'))"
  shows "\<exists>row. filter (hasKey inst (cf_id it)) (personalCFDeployment (store s')) = [row] \<and>
               dep_instanceCFId row = n \<and> dep_deployedVersion row = version it \<and>
               dep_deployedSpecsSnapshot row = specifications it \<and> dep_deployedAt row = at"
  using assms
proof (induction cfs arbitrary: res s)
  case Nil
  then show ?case by (simp add: deployLoop_def newCalls_def)
next
  case (Cons cf cfs)
  obtain res1 s1 where one: "deployOne env ac userId inst byName (res, s) cf = (res1, s1)"
    by (metis surj_pair)
  with Cons.prems have rest: "deployLoop env ac userId inst byName cfs (res1, s1) = (res', s')"
    by (simp add: deployLoop_Cons)
  note nc = newCalls_split(1) [OF deployOne_log(1) [OF one] deployLoop_calls [OF rest]]
  note lg = deployOne_log(2) [OF one]
  note st = deployOne_store [OF one]
  have u1: "ledgerUnique (store s1)" using st(3) Cons.prems(2) by simp
  from Cons.prems(4) nc consider
    (first) "(it, n, at) \<in> set (gather upsertWritten (newCalls s s1))" |
    (later) "(it, n, at) \<in> set (gather upsertWritten (newCalls s1 s'))"
    by auto
  then show ?case
  proof cases
    case later
    with Cons.IH [OF rest u1] Cons.prems(3) show ?thesis by simp
  next
    case first
    from st(6) [OF Cons.prems(2) first] obtain row where
      row: "filter (hasKey inst (cf_id it)) (personalCFDeployment (store s1)) = [row]"
        "dep_instanceCFId row = n" "dep_deployedVersion row = version it"
        "dep_deployedSpecsSnapshot row = specifications it" "dep_deployedAt row = at"
      by blast
    from first have "it \<in> set (map fst (gather upsertWritten (newCalls s s1)))"
      by force
    moreover from lg have "set (map fst (gather upsertWritten (newCalls s s1))) \<subseteq> {cf}"
      by (elim conjE) (simp only:)
    ultimately have "it = cf" by blast
    with Cons.prems(3) have "\<forall>c \<in> set cfs. (inst, cf_id it) \<noteq> (inst, cf_id c)"
      by auto
    with deployLoop_store [OF rest, of "(inst, cf_id it)"]
    have "filter (\<lambda>r. ledgerKey r = (inst, cf_id it)) (personalCFDeployment (store s'))
        = filter (\<lambda>r. ledgerKey r = (inst, cf_id it)) (personalCFDeployment (store s1))"
      by blast
    with row show ?thesis by (simp add: hasKey_ledgerKey [abs_def])
  qed
qed


section \<open>Batch deployment\<close>


lemma post_deploy_list_throws:
  assumes "guardsPass userId b (store s) inst"
    and "getCustomFormats (createArrApiClient env inst) (world s) = (Inl err, w)"
  shows "post_deploy_multiple env userId b s =
           ((500, ErrorBody ''DEPLOYMENT_FAILED''
                    (errorMessage err ''Failed to deploy custom formats'')),
            logCall (ListCall (Some err)) w s)"
  using assms by (simp add: guardsPass_def post_deploy_multiple_def Let_def)

lemma post_deploy_run:
  assumes "guardsPass userId b (store s) inst"
    and "getCustomFormats (createArrApiClient env inst) (world s) = (Inr fs, w)"
    and "deployLoop env (createArrApiClient env inst) userId (instanceId b)
           (existingByName fs) (findManyCFs (personalCFIds b) userId (store s))
           (emptyResults, logCall (ListCall None) w s) = (res, s')"
  shows "post_deploy_multiple env userId b s =
           ((if failed res = [] then 200 else 400,
             Data \<lparr> created = created res, updated = updated res, failed = failed res,
                    success = (failed res = []) \<rparr>), s')"
  using assms by (simp add: guardsPass_def post_deploy_multiple_def Let_def)

lemma post_deploy_newCalls:
  assumes "deployLoop env ac userId i byName cfs (res0, logCall (ListCall None) w s) = (res, s')"
  shows "newCalls s s' = ListCall None # newCalls (logCall (ListCall None) w s) s'"
    and "store (logCall (ListCall None) w s) = store s"
proof -
  let ?s0 = "logCall (ListCall None) w s"
  have "calls s' = calls ?s0 @ newCalls ?s0 s'"
    by (rule deployLoop_calls [OF assms])
  then have "calls s' = calls s @ (ListCall None # newCalls ?s0 s')"
    by (simp add: logCall_def)
  then show "newCalls s s' = ListCall None # newCalls ?s0 s'"
    by (rule newCalls_append)
  show "store ?s0 = store s" by (simp add: logCall_def)
qed















lemma post_deploy_summary:
  assumes g: "guardsPass userId b (store s) inst"
    and l: "getCustomFormats (createArrApiClient env inst) (world s) = (Inr fs, w)"
    and run: "post_deploy_multiple env userId b s = (reply, s')"
  obtains res where
    "deployLoop env (createArrApiClient env inst) userId (instanceId b)
       (existingByName fs) (findManyCFs (personalCFIds b) userId (store s))
       (emptyResults, logCall (ListCall None) w s) = (res, s')"
    "reply = (if failed res = [] then 200 else 400,
             Data \<lparr> created = created res, updated = updated res, failed = failed res,
                    success = (failed res = []) \<rparr>)"
    "newCalls s s' = ListCall None # newCalls (logCall (ListCall None) w s) s'"
proof -
  obtain res s1 where loop: "deployLoop env (createArrApiClient env inst) userId (instanceId b)
       (existingByName fs) (findManyCFs (personalCFIds b) userId (store s))
       (emptyResults, logCall (ListCall None) w s) = (res, s1)"
    by (metis surj_pair)
  from post_deploy_run [OF g l loop] run
  have r: "reply = (if failed res = [] then 200 else 400,
             Data \<lparr> created = created res, updated = updated res, failed = failed res,
                    success = (failed res = []) \<rparr>)" "s1 = s'"
    by simp_all
  show ?thesis
    by (rule that [OF loop [unfolded r(2)] r(1) post_deploy_newCalls(1) [OF loop [unfolded r(2)]]])
qed





lemma findManyCFs_distinct:
  "primaryKeys d \<Longrightarrow> distinct (map cf_id (findManyCFs ids userId d))"
  by (simp add: primaryKeys_def findManyCFs_def distinct_map_filter)

lemma post_deploy_cases:
  assumes run: "post_deploy_multiple env userId b s = (reply, s')"
  obtains (untouched) "store s' = store s" "gather upsertWritten (newCalls s s') = []"
      "gather upsertReturned (newCalls s s') = []"
    | (looped) inst fs w where "guardsPass userId b (store s) inst"
      "getCustomFormats (createArrApiClient env inst) (world s) = (Inr fs, w)"
proof (cases "\<exists>inst. guardsPass userId b (store s) inst")
  case False
  then have "s' = s"
    using run
    by (auto simp: guardsPass_def post_deploy_multiple_def Let_def
             split: if_splits option.splits)
  then have "store s' = store s" "newCalls s s' = []" by (simp_all add: newCalls_def)
  then show ?thesis using untouched by simp
next
  case True
  then obtain inst where g: "guardsPass userId b (store s) inst" by blast
  obtain out w where l: "getCustomFormats (createArrApiClient env inst) (world s) = (out, w)"
    by (metis surj_pair)
  show ?thesis
  proof (cases out)
    case (Inl err)
    from post_deploy_list_throws [OF g l [unfolded Inl]] run
    have s': "s' = logCall (ListCall (Some err)) w s" by simp
    then have "calls s' = calls s @ [ListCall (Some err)]" by (simp add: logCall_def)
    then have "newCalls s s' = [ListCall (Some err)]" by (rule newCalls_append)
    moreover have "store s' = store s" unfolding s' by (simp add: logCall_def)
    ultimately show ?thesis using untouched by simp
  next
    case (Inr fs)
    with g l show ?thesis using looped by blast
  qed
qed

text \<open>
  C5. A deployment request never leaves two rows for one (instance, record) pair: if
  the deployment table has at most one row per pair before
  POST /deploy-multiple, it has so afterwards, whatever the batch and whatever failed.
  Every upsert that returned was made for a record fetched for this batch, and
  afterwards the table holds exactly one row for that record and the instance, carrying
  the remote id given to the upsert, the record's version and specifications as
  fetched for this deployment, and the upsert's timestamp.
\<close>

theorem ledger_upsert_unique:
  assumes u: "ledgerUnique (store s)" and pk: "primaryKeys (store s)"
    and run: "post_deploy_multiple env userId b s = (reply, s')"
  shows "ledgerUnique (store s') \<and>
     gather upsertReturned (newCalls s s') = map fst (gather upsertWritten (newCalls s s')) \<and>
     set (gather upsertReturned (newCalls s s'))
       \<subseteq> set (findManyCFs (personalCFIds b) userId (store s)) \<and>
     (\<forall>it n at. (it, n, at) \<in> set (gather upsertWritten (newCalls s s')) \<longrightarrow>
        (\<exists>row. filter (hasKey (instanceId b) (cf_id it)) (personalCFDeployment (store s')) = [row] \<and>
              dep_instanceCFId row = n \<and> dep_deployedVersion row = version it \<and>
              dep_deployedSpecsSnapshot row = specifications it \<and> dep_deployedAt row = at))"
  using run
proof (cases rule: post_deploy_cases)
  case untouched
  with u show ?thesis by simp
next
  case (looped inst fs w)
  let ?cfs = "findManyCFs (personalCFIds b) userId (store s)"
  let ?s0 = "logCall (ListCall None) w s"
  from looped run obtain res where
    loop: "deployLoop env (createArrApiClient env inst) userId (instanceId b)
       (existingByName fs) ?cfs (emptyResults, ?s0) = (res, s')"
    and nc: "newCalls s s' = ListCall None # newCalls ?s0 s'"
    by (rule post_deploy_summary)
  have s0: "store ?s0 = store s" by (simp add: logCall_def)
  note lg = deployLoop_log [OF loop]
  note st = deployLoop_store [OF loop, of "(instanceId b, [])"]
  from st u have 1: "ledgerUnique (store s')" by (simp add: s0)
  from lg have "gather upsertReturned (newCalls ?s0 s') = map fst (gather upsertWritten (newCalls ?s0 s'))"
    by blast
  then have 2: "gather upsertReturned (newCalls s s') = map fst (gather upsertWritten (newCalls s s'))"
    unfolding nc by simp
  from lg have "set (gather upsertReturned (newCalls ?s0 s')) \<subseteq> set ?cfs"
    by blast
  then have 3: "set (gather upsertReturned (newCalls s s')) \<subseteq> set ?cfs"
    unfolding nc by simp
  have 4: "\<exists>row. filter (hasKey (instanceId b) (cf_id it)) (personalCFDeployment (store s')) = [row] \<and>
              dep_instanceCFId row = n \<and> dep_deployedVersion row = version it \<and>
              dep_deployedSpecsSnapshot row = specifications it \<and> dep_deployedAt row = at"
    if "(it, n, at) \<in> set (gather upsertWritten (newCalls s s'))" for it n at
  proof -
    from that have m: "(it, n, at) \<in> set (gather upsertWritten (newCalls ?s0 s'))"
      unfolding nc by simp
    show ?thesis
      by (rule deployLoop_written [OF loop _ findManyCFs_distinct [OF pk] m]) (simp add: s0 u)
  qed
  from 1 2 3 4 show ?thesis by blast
qed

text \<open>
  A was deployed at version 1, then moved to version 2 and is deployed again: the table
  keeps its two rows, and the row of A now has version 2 and the new timestamp.
\<close>

theorem ledger_upsert_unique_witness:
  "ledgerUnique (store redeploySys) \<and> primaryKeys (store redeploySys) \<and>
   map (\<lambda>r. (ledgerKey r, dep_deployedVersion r, dep_instanceCFId r, dep_deployedAt r))
     (personalCFDeployment (store redeploySys))
     = [((''i1'', ''a''), 1, 7, 1002), ((''i1'', ''c''), 2, 103, 1004)] \<and>
   map (\<lambda>r. (ledgerKey r, dep_deployedVersion r, dep_instanceCFId r, dep_deployedAt r))
     (personalCFDeployment (store (snd (post_deploy_multiple sampleEnv ''u1'' deployA redeploySys))))
     = [((''i1'', ''a''), 2, 7, 1007), ((''i1'', ''c''), 2, 103, 1004)] \<and>
   map_option version (findOwnedCF ''a'' ''u1'' (store redeploySys)) = Some 2 \<and>
   ledgerUnique (store (snd (post_deploy_multiple sampleEnv ''u1'' deployA redeploySys)))"
proof -
  have h: "ledgerUnique (store redeploySys)" "primaryKeys (store redeploySys)"
    by code_simp+
  have before: "map (\<lambda>r. (ledgerKey r, dep_deployedVersion r, dep_instanceCFId r, dep_deployedAt r))
     (personalCFDeployment (store redeploySys))
     = [((''i1'', ''a''), 1, 7, 1002), ((''i1'', ''c''), 2, 103, 1004)]"
    by code_simp
  have after: "map (\<lambda>r. (ledgerKey r, dep_deployedVersion r, dep_instanceCFId r, dep_deployedAt r))
     (personalCFDeployment (store (snd (post_deploy_multiple sampleEnv ''u1'' deployA redeploySys))))
     = [((''i1'', ''a''), 2, 7, 1007), ((''i1'', ''c''), 2, 103, 1004)]"
    by code_simp
  have v: "map_option version (findOwnedCF ''a'' ''u1'' (store redeploySys)) = Some 2"
    by code_simp
  from ledger_upsert_unique [OF h prod.collapse [symmetric]]
  have u: "ledgerUnique (store (snd (post_deploy_multiple sampleEnv ''u1'' deployA redeploySys)))"
    by (rule conjunct1)
  show ?thesis
    by (intro conjI) (rule h before after v u)+
qed

end
